theory Spec2Isabelle
  imports Complex_Main
begin

section \<open>Data model (types.ts)\<close>

text \<open>
  The TypeScript \<^verbatim>\<open>number\<close> fields are modelled as exact reals: rounding and overflow of
  IEEE doubles are not represented, and the numeric fields of clips and blocks are taken to
  be finite numbers. Where the source divides, the non-finite results of a zero denominator
  are written out (see \<open>jsnum\<close> below). The \<^verbatim>\<open>file\<close> and \<^verbatim>\<open>thumbnailUrl\<close> fields of a
  clip carry no behaviour that is modelled; a clip's file is identified by the clip's id.
\<close>

record VideoMetadata =
  duration :: real
  width :: nat
  height :: nat

record AudioSettings =
  volume :: real
  muted :: bool

record VideoClip =
  id_clip :: string
  metadata :: VideoMetadata
  startTime :: real
  endTime :: real
  audioSettings :: AudioSettings

record TimelineBlock =
  id_block :: string
  clipId :: string
  order :: real
  startTime :: real
  endTime :: real
  duration :: real

record ProcessingProgress =
  taskId :: string
  progress :: real
  completed :: bool

record PlaybackState =
  isPlaying :: bool
  currentTime :: real
  totalDuration :: real
  activeBlockId :: "string option"

text \<open>\<^verbatim>\<open>Partial<TimelineBlock>\<close>: every field may be absent.\<close>

record TimelineBlockUpdates =
  u_id_block :: "string option"
  u_clipId :: "string option"
  u_order :: "real option"
  u_startTime :: "real option"
  u_endTime :: "real option"
  u_duration :: "real option"

definition no_updates :: TimelineBlockUpdates where
  "no_updates = \<lparr>u_id_block = None, u_clipId = None, u_order = None,
     u_startTime = None, u_endTime = None, u_duration = None\<rparr>"

text \<open>The object spread \<^verbatim>\<open>{ ...b, ...updates }\<close>.\<close>

definition spread :: "TimelineBlock \<Rightarrow> TimelineBlockUpdates \<Rightarrow> TimelineBlock" where
  "spread b u =
     \<lparr>id_block = (case u_id_block u of None \<Rightarrow> id_block b | Some v \<Rightarrow> v),
      clipId = (case u_clipId u of None \<Rightarrow> clipId b | Some v \<Rightarrow> v),
      order = (case u_order u of None \<Rightarrow> order b | Some v \<Rightarrow> v),
      startTime = (case u_startTime u of None \<Rightarrow> TimelineBlock.startTime b | Some v \<Rightarrow> v),
      endTime = (case u_endTime u of None \<Rightarrow> TimelineBlock.endTime b | Some v \<Rightarrow> v),
      duration = (case u_duration u of None \<Rightarrow> TimelineBlock.duration b | Some v \<Rightarrow> v)\<rparr>"

section \<open>The store (store/videoStore.ts)\<close>

record VideoStore =
  clips :: "VideoClip list"
  timelineBlocks :: "TimelineBlock list"
  playback :: PlaybackState
  processingQueue :: "ProcessingProgress list"

definition initial_store :: VideoStore where
  "initial_store =
     \<lparr>clips = [], timelineBlocks = [],
      playback = \<lparr>isPlaying = False, currentTime = 0, totalDuration = 0, activeBlockId = None\<rparr>,
      processingQueue = []\<rparr>"

text \<open>\<^verbatim>\<open>blocks.reduce((sum, b) => sum + b.duration, 0)\<close>: a left fold from 0.\<close>

definition reduce_duration :: "TimelineBlock list \<Rightarrow> real" where
  "reduce_duration bs = foldl (\<lambda>sum b. sum + TimelineBlock.duration b) 0 bs"

definition addClip :: "VideoClip \<Rightarrow> VideoStore \<Rightarrow> VideoStore" where
  "addClip clip state = state\<lparr>clips := clips state @ [clip]\<rparr>"

definition removeClip :: "string \<Rightarrow> VideoStore \<Rightarrow> VideoStore" where
  "removeClip cid state =
     state\<lparr>clips := filter (\<lambda>c. id_clip c \<noteq> cid) (clips state),
           timelineBlocks := filter (\<lambda>b. clipId b \<noteq> cid) (timelineBlocks state)\<rparr>"

definition addBlockToTimeline :: "TimelineBlock \<Rightarrow> VideoStore \<Rightarrow> VideoStore" where
  "addBlockToTimeline block state =
     (let newBlocks = timelineBlocks state @ [block];
          total = reduce_duration newBlocks
      in state\<lparr>timelineBlocks := newBlocks,
               playback := (playback state)\<lparr>totalDuration := total\<rparr>\<rparr>)"

definition removeBlockFromTimeline :: "string \<Rightarrow> VideoStore \<Rightarrow> VideoStore" where
  "removeBlockFromTimeline blockId state =
     (let newBlocks = filter (\<lambda>b. id_block b \<noteq> blockId) (timelineBlocks state);
          total = reduce_duration newBlocks
      in state\<lparr>timelineBlocks := newBlocks,
               playback := (playback state)\<lparr>totalDuration := total\<rparr>\<rparr>)"

definition updateBlockOrder :: "TimelineBlock list \<Rightarrow> VideoStore \<Rightarrow> VideoStore" where
  "updateBlockOrder blocks state =
     (let total = reduce_duration blocks
      in state\<lparr>timelineBlocks := blocks,
               playback := (playback state)\<lparr>totalDuration := total\<rparr>\<rparr>)"

definition updateBlock :: "string \<Rightarrow> TimelineBlockUpdates \<Rightarrow> VideoStore \<Rightarrow> VideoStore" where
  "updateBlock blockId updates state =
     (let newBlocks = map (\<lambda>b. if id_block b = blockId then spread b updates else b)
                          (timelineBlocks state);
          total = reduce_duration newBlocks
      in state\<lparr>timelineBlocks := newBlocks,
               playback := (playback state)\<lparr>totalDuration := total\<rparr>\<rparr>)"

definition setPlaying :: "bool \<Rightarrow> VideoStore \<Rightarrow> VideoStore" where
  "setPlaying p state = state\<lparr>playback := (playback state)\<lparr>isPlaying := p\<rparr>\<rparr>"

definition setCurrentTime :: "real \<Rightarrow> VideoStore \<Rightarrow> VideoStore" where
  "setCurrentTime t state = state\<lparr>playback := (playback state)\<lparr>currentTime := t\<rparr>\<rparr>"

definition setActiveBlock :: "string option \<Rightarrow> VideoStore \<Rightarrow> VideoStore" where
  "setActiveBlock blockId state =
     state\<lparr>playback := (playback state)\<lparr>activeBlockId := blockId\<rparr>\<rparr>"

text \<open>The four timeline-block actions, as one datatype, to speak about "each action".\<close>

datatype block_action =
    AddBlockToTimeline TimelineBlock
  | RemoveBlockFromTimeline string
  | UpdateBlockOrder "TimelineBlock list"
  | UpdateBlock string TimelineBlockUpdates

fun apply_block_action :: "block_action \<Rightarrow> VideoStore \<Rightarrow> VideoStore" where
  "apply_block_action (AddBlockToTimeline b) s = addBlockToTimeline b s"
| "apply_block_action (RemoveBlockFromTimeline i) s = removeBlockFromTimeline i s"
| "apply_block_action (UpdateBlockOrder bs) s = updateBlockOrder bs s"
| "apply_block_action (UpdateBlock i u) s = updateBlock i u s"

section \<open>Keyboard shortcuts (App.tsx, handleKeyPress)\<close>

text \<open>
  The handler reads \<^verbatim>\<open>playback\<close> and \<^verbatim>\<open>hasClips\<close> of the store and looks the active
  block up in the store's block list. Toast notifications are not modelled here. The flag
  \<open>inInput\<close> says that the event's target is an input or a textarea. An
  \<^verbatim>\<open>activeBlockId\<close> that is undefined or the empty string is falsy.
\<close>

datatype key = Space | Delete | Backspace | KeyI | KeyO | OtherKey

definition truthy_id :: "string option \<Rightarrow> string option" where
  "truthy_id a = (case a of None \<Rightarrow> None | Some i \<Rightarrow> if i = [] then None else Some i)"

definition setInPoint :: "VideoStore \<Rightarrow> VideoStore" where
  "setInPoint st =
     (case truthy_id (activeBlockId (playback st)) of
        None \<Rightarrow> st
      | Some a \<Rightarrow>
          if clips st = [] then st
          else (case find (\<lambda>b. id_block b = a) (timelineBlocks st) of
                  None \<Rightarrow> st
                | Some block \<Rightarrow>
                    (let newStartTime = currentTime (playback st);
                         newDuration = TimelineBlock.endTime block - newStartTime
                     in if newDuration > 0.1
                        then updateBlock (id_block block)
                               (no_updates\<lparr>u_startTime := Some newStartTime,
                                           u_duration := Some newDuration\<rparr>) st
                        else st)))"

definition setOutPoint :: "VideoStore \<Rightarrow> VideoStore" where
  "setOutPoint st =
     (case truthy_id (activeBlockId (playback st)) of
        None \<Rightarrow> st
      | Some a \<Rightarrow>
          if clips st = [] then st
          else (case find (\<lambda>b. id_block b = a) (timelineBlocks st) of
                  None \<Rightarrow> st
                | Some block \<Rightarrow>
                    (let newEndTime = currentTime (playback st);
                         newDuration = newEndTime - TimelineBlock.startTime block
                     in if newDuration > 0.1
                        then updateBlock (id_block block)
                               (no_updates\<lparr>u_endTime := Some newEndTime,
                                           u_duration := Some newDuration\<rparr>) st
                        else st)))"

definition handleKeyPress :: "bool \<Rightarrow> key \<Rightarrow> VideoStore \<Rightarrow> VideoStore" where
  "handleKeyPress inInput k st =
     (if inInput then st
      else (case k of
              Space \<Rightarrow> if clips st \<noteq> [] then setPlaying (\<not> isPlaying (playback st)) st else st
            | Delete \<Rightarrow> (case truthy_id (activeBlockId (playback st)) of
                          None \<Rightarrow> st | Some a \<Rightarrow> removeBlockFromTimeline a st)
            | Backspace \<Rightarrow> (case truthy_id (activeBlockId (playback st)) of
                             None \<Rightarrow> st | Some a \<Rightarrow> removeBlockFromTimeline a st)
            | KeyI \<Rightarrow> setInPoint st
            | KeyO \<Rightarrow> setOutPoint st
            | OtherKey \<Rightarrow> st))"

section \<open>JavaScript numbers that may be non-finite\<close>

text \<open>
  The progress computed by the export divides by the total duration, which may be zero;
  in JavaScript the quotient is then \<^verbatim>\<open>Infinity\<close>, \<^verbatim>\<open>-Infinity\<close> or \<^verbatim>\<open>NaN\<close>. These
  values are kept apart from the finite numbers. (The total is a sum started at \<^verbatim>\<open>0\<close>, so
  a zero total is \<^verbatim>\<open>+0\<close>.)
\<close>

datatype jsnum = Num real | NaN | PosInf | NegInf

text \<open>\<^verbatim>\<open>a / b\<close> for finite \<open>a\<close>, \<open>b\<close>.\<close>

definition js_div :: "real \<Rightarrow> real \<Rightarrow> jsnum" where
  "js_div a b =
     (if b \<noteq> 0 then Num (a / b)
      else if a > 0 then PosInf else if a < 0 then NegInf else NaN)"

text \<open>\<^verbatim>\<open>x * c\<close> for a finite constant \<open>c > 0\<close> (the source uses 95 and 0.6).\<close>

fun js_times :: "jsnum \<Rightarrow> real \<Rightarrow> jsnum" where
  "js_times (Num x) c = Num (x * c)"
| "js_times NaN c = NaN"
| "js_times PosInf c = PosInf"
| "js_times NegInf c = NegInf"

text \<open>\<^verbatim>\<open>x * d\<close> and \<^verbatim>\<open>a + x\<close> for finite \<open>d\<close> and \<open>a\<close> of any sign.\<close>

fun js_mult :: "jsnum \<Rightarrow> real \<Rightarrow> jsnum" where
  "js_mult (Num x) d = Num (x * d)"
| "js_mult NaN d = NaN"
| "js_mult PosInf d = (if d > 0 then PosInf else if d < 0 then NegInf else NaN)"
| "js_mult NegInf d = (if d > 0 then NegInf else if d < 0 then PosInf else NaN)"

fun js_add :: "real \<Rightarrow> jsnum \<Rightarrow> jsnum" where
  "js_add a (Num x) = Num (a + x)"
| "js_add a NaN = NaN"
| "js_add a PosInf = PosInf"
| "js_add a NegInf = NegInf"

text \<open>\<^verbatim>\<open>Math.min(c, x)\<close> and \<^verbatim>\<open>Math.max(c, x)\<close> for a finite \<open>c\<close>.\<close>

fun js_min :: "real \<Rightarrow> jsnum \<Rightarrow> jsnum" where
  "js_min c (Num x) = Num (min c x)"
| "js_min c NaN = NaN"
| "js_min c PosInf = Num c"
| "js_min c NegInf = NegInf"

fun js_max :: "real \<Rightarrow> jsnum \<Rightarrow> jsnum" where
  "js_max c (Num x) = Num (max c x)"
| "js_max c NaN = NaN"
| "js_max c PosInf = PosInf"
| "js_max c NegInf = Num c"

text \<open>\<^verbatim>\<open>Math.round\<close>: the nearest integer, halves rounded up.\<close>

definition round_half_up :: "real \<Rightarrow> real" where
  "round_half_up x = of_int \<lfloor>x + 1 / 2\<rfloor>"

fun js_round :: "jsnum \<Rightarrow> jsnum" where
  "js_round (Num x) = Num (round_half_up x)"
| "js_round NaN = NaN"
| "js_round PosInf = PosInf"
| "js_round NegInf = NegInf"

text \<open>\<^verbatim>\<open>x > c\<close> and \<^verbatim>\<open>x <= y\<close>; every comparison with \<^verbatim>\<open>NaN\<close> is false.\<close>

fun js_above :: "jsnum \<Rightarrow> real \<Rightarrow> bool" where
  "js_above (Num x) c = (x > c)"
| "js_above NaN c = False"
| "js_above PosInf c = True"
| "js_above NegInf c = False"

fun js_le :: "jsnum \<Rightarrow> jsnum \<Rightarrow> bool" where
  "js_le NaN y = False"
| "js_le x NaN = False"
| "js_le NegInf y = True"
| "js_le x PosInf = True"
| "js_le (Num x) (Num y) = (x \<le> y)"
| "js_le PosInf y = False"
| "js_le x NegInf = False"

fun nondecreasing :: "jsnum list \<Rightarrow> bool" where
  "nondecreasing (x # y # zs) = (js_le x y \<and> nondecreasing (y # zs))"
| "nondecreasing zs = True"

section \<open>Trim handles (components/TimelineBlock.tsx)\<close>

text \<open>
  The component state is \<^verbatim>\<open>trimming\<close> (null, 'start' or 'end') and \<^verbatim>\<open>tempTrimTime\<close>;
  the props \<^verbatim>\<open>block\<close> and \<^verbatim>\<open>clip\<close> are arguments of the handlers. In
  \<open>handleMouseMove\<close> the arguments are \<^verbatim>\<open>e.clientX - rect.left\<close> and \<^verbatim>\<open>rect.width\<close> of
  the mounted block element. The width may be zero: the ratio is then infinite or
  \<^verbatim>\<open>NaN\<close>, and so may be the new time before it is clamped. The result is \<open>None\<close> when
  the clamped time is \<^verbatim>\<open>NaN\<close>, which the real-valued \<open>temp_start\<close> and \<open>temp_end\<close>
  cannot hold.
\<close>

datatype TrimHandle = TrimStart | TrimEnd

record TrimComponent =
  trimming :: "TrimHandle option"
  temp_start :: real
  temp_end :: real

definition handleTrimStart :: "TrimHandle \<Rightarrow> TimelineBlock \<Rightarrow> TrimComponent \<Rightarrow> TrimComponent" where
  "handleTrimStart h block c =
     c\<lparr>trimming := Some h, temp_start := TimelineBlock.startTime block,
       temp_end := TimelineBlock.endTime block\<rparr>"

definition handleMouseMove ::
  "real \<Rightarrow> real \<Rightarrow> TimelineBlock \<Rightarrow> VideoClip \<Rightarrow> TrimComponent \<Rightarrow> TrimComponent option" where
  "handleMouseMove mouseX blockWidth block clip c =
     (let clipDuration = VideoMetadata.duration (metadata clip);
          currentDuration = TimelineBlock.endTime block - TimelineBlock.startTime block;
          ratio = js_div mouseX blockWidth;
          offset = js_mult ratio currentDuration
      in case trimming c of
           None \<Rightarrow> Some c
         | Some TrimStart \<Rightarrow>
             (let newStartTime = js_add (TimelineBlock.startTime block) offset;
                  maxStart = temp_end c - 0.1
              in case js_max 0 (js_min maxStart newStartTime) of
                   Num v \<Rightarrow> Some (c\<lparr>temp_start := v\<rparr>)
                 | _ \<Rightarrow> None)
         | Some TrimEnd \<Rightarrow>
             (let newEndTime = js_add (TimelineBlock.startTime block) offset;
                  minEnd = temp_start c + 0.1
              in case js_max minEnd (js_min clipDuration newEndTime) of
                   Num v \<Rightarrow> Some (c\<lparr>temp_end := v\<rparr>)
                 | _ \<Rightarrow> None))"

definition handleMouseUp ::
  "TimelineBlock \<Rightarrow> TrimComponent \<times> VideoStore \<Rightarrow> TrimComponent \<times> VideoStore" where
  "handleMouseUp block cs =
     (case cs of (c, st) \<Rightarrow>
        (case trimming c of
           None \<Rightarrow> (c, st)
         | Some h \<Rightarrow>
             (let newDuration = temp_end c - temp_start c
              in (c\<lparr>trimming := None\<rparr>,
                  updateBlock (id_block block)
                    (no_updates\<lparr>u_startTime := Some (temp_start c),
                                u_endTime := Some (temp_end c),
                                u_duration := Some newDuration\<rparr>) st))))"

text \<open>
  The segment invariant of the data model, for a block and the clip it refers to:
  \<open>0 \<le> trimStart < trimEnd \<le> sourceDuration\<close>.
\<close>

definition trim_ok :: "TimelineBlock \<Rightarrow> VideoClip \<Rightarrow> bool" where
  "trim_ok b c \<longleftrightarrow>
     0 \<le> TimelineBlock.startTime b
     \<and> TimelineBlock.startTime b < TimelineBlock.endTime b
     \<and> TimelineBlock.endTime b \<le> VideoMetadata.duration (metadata c)"

section \<open>Preview player (components/VideoPlayer.tsx, handleTimeUpdate)\<close>

record VideoElement =
  v_currentTime :: real
  v_paused :: bool

record VideoPlayer =
  videoRef :: "VideoElement option"
  currentBlockIndex :: nat
  isTransitioning :: bool
  shouldAutoPlayRef :: bool
  store :: VideoStore

text \<open>\<^verbatim>\<open>[...timelineBlocks].sort((a, b) => a.order - b.order)\<close>: a stable ascending sort.\<close>

definition sortedBlocks :: "TimelineBlock list \<Rightarrow> TimelineBlock list" where
  "sortedBlocks bs = sort_key order bs"

definition handleTimeUpdate :: "VideoPlayer \<Rightarrow> VideoPlayer" where
  "handleTimeUpdate p =
     (let sorted = sortedBlocks (timelineBlocks (store p));
          i = VideoPlayer.currentBlockIndex p
      in case videoRef p of
           None \<Rightarrow> p
         | Some v \<Rightarrow>
             if sorted = [] \<or> isTransitioning p then p
             else if \<not> i < length sorted then p
             else
               (let currentBlock = sorted ! i;
                    videoTime = v_currentTime v
                in if videoTime \<ge> TimelineBlock.endTime currentBlock - 0.05 then
                     (let p1 = p\<lparr>videoRef := Some (v\<lparr>v_paused := True\<rparr>),
                                  store := setPlaying False (store p)\<rparr>
                      in if i + 1 < length sorted
                         then p1\<lparr>shouldAutoPlayRef := True, isTransitioning := True,
                                 VideoPlayer.currentBlockIndex := i + 1\<rparr>
                         else p1\<lparr>shouldAutoPlayRef := True, isTransitioning := True,
                                 VideoPlayer.currentBlockIndex := 0,
                                 store := setCurrentTime 0 (store p1)\<rparr>)
                   else if videoTime < TimelineBlock.startTime currentBlock then
                     p\<lparr>videoRef := Some (v\<lparr>v_currentTime := TimelineBlock.startTime currentBlock\<rparr>)\<rparr>
                   else
                     (let timeBeforeCurrentBlock = reduce_duration (take i sorted);
                          timeInCurrentBlock = videoTime - TimelineBlock.startTime currentBlock;
                          cumulativeTime = timeBeforeCurrentBlock + timeInCurrentBlock
                      in p\<lparr>store := setCurrentTime cumulativeTime (store p)\<rparr>)))"

section \<open>The transcode bridge's progress handler (utils/ffmpegHelper.ts, transcodeVideo)\<close>

text \<open>
  A raw sample is the pair \<^verbatim>\<open>{ progress, time }\<close> of the ffmpeg progress event. \<open>None\<close>
  stands for a field that is not a number or is \<^verbatim>\<open>NaN\<close>: both fail every test of the
  handler. The result is the value passed to \<^verbatim>\<open>onProgress\<close>.
\<close>

definition ffmpeg_progress :: "real option \<Rightarrow> real option \<Rightarrow> real" where
  "ffmpeg_progress raw time =
     (let fromTime =
            (case time of
               Some t \<Rightarrow> if t > 0 then min 99 (of_int \<lfloor>t / 100000\<rfloor>) else 0
             | None \<Rightarrow> 0);
          progressPercent =
            (case raw of
               Some r \<Rightarrow> if r \<ge> 0 \<and> r \<le> 1 then round_half_up (r * 100) else fromTime
             | None \<Rightarrow> fromTime)
      in max 0 (min 100 progressPercent))"

text \<open>handleExport's callback for the transcode stage: \<^verbatim>\<open>65 + Math.round(progress * 0.35)\<close>.\<close>

definition transcode_report :: "real \<Rightarrow> real" where
  "transcode_report p = 65 + round_half_up (p * 0.35)"

section \<open>The export panel (components/ExportPanel.tsx)\<close>

datatype format = webm | mp4 | mov

datatype quality = low | medium | high

record ExportSettings =
  format :: format
  quality :: quality

text \<open>
  What the run reads from outside: the store's blocks and clips, the settings, and the
  answers of the browser that decide a branch of the code.
\<close>

datatype save_result = SaveGranted | SaveCancelled | SaveFailed

record ExportEnv =
  env_timelineBlocks :: "TimelineBlock list"
  env_clips :: "VideoClip list"
  settings :: ExportSettings
  fsAccessSupported :: bool
  saveHandle :: save_result
  canvasContext :: bool
  ffmpegLoaded :: bool

datatype toast = ToastError string | ToastSuccess string | ToastPlain string

datatype outcome = Pending | Resolved "nat list" | Rejected string

datatype recorder_state = NotCreated | Recording | StopRequested | Stopped

datatype phase =
    Idle | AwaitFirstMetadata | AwaitMetadata | AwaitSeeked | AwaitPlay | Capturing
  | Stopping | Transcoding | Downloading | Finished | Closed | Failed

text \<open>
  The component state (\<open>isExporting\<close>, \<open>exportProgress\<close>), the mutable variables that the
  closures of \<^verbatim>\<open>processAndMergeSegments\<close> share, the point the asynchronous code has
  reached (\<open>phase\<close>), and logs that only observe: the arguments of every
  \<^verbatim>\<open>setExportProgress\<close> and \<^verbatim>\<open>onProgress\<close> call, the number of
  \<^verbatim>\<open>createMediaElementSource\<close> calls, and the block index at every \<^verbatim>\<open>drawImage\<close> and
  every \<^verbatim>\<open>video.play()\<close>. Of the shared video element the fields written by the run
  are kept: its source (the id of the clip whose file is loaded), \<^verbatim>\<open>paused\<close>,
  \<^verbatim>\<open>volume\<close>, \<^verbatim>\<open>muted\<close> and the last value assigned to \<^verbatim>\<open>currentTime\<close>. A recorder
  chunk is represented by its size, a blob by the list of its chunks.
\<close>

record ExportPanel =
  isExporting :: bool
  exportProgress :: jsnum
  toasts :: "toast list"
  phase :: phase
  outcome :: outcome
  videoSrc :: "string option"
  videoPaused :: bool
  videoVolume :: real
  videoMuted :: bool
  videoSeek :: real
  audioSource :: bool
  recorder :: recorder_state
  chunks :: "nat list"
  processedDuration :: real
  currentBlockIndex :: nat
  setExportProgressLog :: "jsnum list"
  onProgressLog :: "jsnum list"
  createSourceCalls :: nat
  drawImageLog :: "nat list"
  playLog :: "nat list"

definition initial_panel :: ExportPanel where
  "initial_panel =
     \<lparr>isExporting = False, exportProgress = Num 0, toasts = [], phase = Idle,
      outcome = Pending, videoSrc = None, videoPaused = True, videoVolume = 1,
      videoMuted = False, videoSeek = 0, audioSource = False, recorder = NotCreated,
      chunks = [], processedDuration = 0, currentBlockIndex = 0,
      setExportProgressLog = [], onProgressLog = [], createSourceCalls = 0,
      drawImageLog = [], playLog = []\<rparr>"

definition setExportProgress :: "jsnum \<Rightarrow> ExportPanel \<Rightarrow> ExportPanel" where
  "setExportProgress p s =
     s\<lparr>exportProgress := p, setExportProgressLog := setExportProgressLog s @ [p]\<rparr>"

definition add_toast :: "toast \<Rightarrow> ExportPanel \<Rightarrow> ExportPanel" where
  "add_toast t s = s\<lparr>toasts := toasts s @ [t]\<rparr>"

definition hasClips :: "ExportEnv \<Rightarrow> bool" where
  "hasClips env \<longleftrightarrow> length (env_timelineBlocks env) > 0"

text \<open>The \<^verbatim>\<open>blocks\<close> argument of the run: the store's blocks sorted by \<^verbatim>\<open>order\<close>.\<close>

definition blocks :: "ExportEnv \<Rightarrow> TimelineBlock list" where
  "blocks env = sortedBlocks (env_timelineBlocks env)"

definition find_clip :: "ExportEnv \<Rightarrow> TimelineBlock \<Rightarrow> VideoClip option" where
  "find_clip env b = find (\<lambda>c. id_clip c = clipId b) (env_clips env)"

text \<open>\<^verbatim>\<open>const totalDuration = blocks.reduce((sum, b) => sum + b.duration, 0)\<close>.\<close>

definition run_totalDuration :: "ExportEnv \<Rightarrow> real" where
  "run_totalDuration env = reduce_duration (blocks env)"

text \<open>
  The \<^verbatim>\<open>onProgress\<close> callback that handleExport passes: the value itself for WebM,
  \<^verbatim>\<open>Math.round(progress * 0.6)\<close> for the other formats.
\<close>

definition onProgress :: "ExportEnv \<Rightarrow> jsnum \<Rightarrow> ExportPanel \<Rightarrow> ExportPanel" where
  "onProgress env p s =
     (let s1 = s\<lparr>onProgressLog := onProgressLog s @ [p]\<rparr>
      in if format (settings env) = webm then setExportProgress p s1
         else setExportProgress (js_round (js_times p 0.6)) s1)"

text \<open>
  The \<^verbatim>\<open>catch\<close> block of handleExport, entered when the awaited promise rejects with a
  message.
\<close>

definition handleExport_catch :: "string \<Rightarrow> ExportPanel \<Rightarrow> ExportPanel" where
  "handleExport_catch msg s =
     setExportProgress (Num 0) ((add_toast (ToastError msg) s)\<lparr>isExporting := False, phase := Failed\<rparr>)"

definition reject :: "string \<Rightarrow> ExportPanel \<Rightarrow> ExportPanel" where
  "reject msg s = handleExport_catch msg (s\<lparr>outcome := Rejected msg\<rparr>)"

text \<open>
  \<^verbatim>\<open>processNextBlock\<close>, up to its first \<^verbatim>\<open>await\<close>: past the last block it stops the
  recorder; a block whose clip is not found is skipped by a recursive call; otherwise the
  clip's file becomes the video source and the code waits for \<^verbatim>\<open>loadedmetadata\<close>.
\<close>

function processNextBlock :: "ExportEnv \<Rightarrow> ExportPanel \<Rightarrow> ExportPanel" where
  "processNextBlock env s =
     (if currentBlockIndex s \<ge> length (blocks env) then
        s\<lparr>recorder := StopRequested, phase := Stopping\<rparr>
      else
        (case find_clip env (blocks env ! currentBlockIndex s) of
           None \<Rightarrow> processNextBlock env (s\<lparr>currentBlockIndex := currentBlockIndex s + 1\<rparr>)
         | Some clip \<Rightarrow> s\<lparr>videoSrc := Some (id_clip clip), phase := AwaitMetadata\<rparr>))"
  by pat_completeness auto
termination
  by (relation "measure (\<lambda>(env, s). length (blocks env) - currentBlockIndex s)") auto

declare processNextBlock.simps [simp del]

text \<open>
  After \<^verbatim>\<open>loadedmetadata\<close>: audio settings, the audio source (once), the seek. In the
  code past an \<^verbatim>\<open>await\<close>, \<^verbatim>\<open>block\<close> and \<^verbatim>\<open>clip\<close> are constants of the closure, read
  at the current index; the index does not change while a block is loaded or captured, so
  they are read from the index again here and in \<open>captureLoop\<close>.
\<close>

definition afterLoadedMetadata :: "ExportEnv \<Rightarrow> ExportPanel \<Rightarrow> ExportPanel" where
  "afterLoadedMetadata env s =
     (let block = blocks env ! currentBlockIndex s
      in case find_clip env block of
           None \<Rightarrow> s
         | Some clip \<Rightarrow>
             (let s1 = s\<lparr>videoVolume := volume (audioSettings clip) / 100,
                          videoMuted := muted (audioSettings clip)\<rparr>;
                  s2 = (if \<not> audioSource s1
                        then s1\<lparr>audioSource := True,
                                createSourceCalls := createSourceCalls s1 + 1\<rparr>
                        else s1)
              in s2\<lparr>videoSeek := TimelineBlock.startTime block, phase := AwaitSeeked\<rparr>))"

text \<open>After \<^verbatim>\<open>seeked\<close>: \<^verbatim>\<open>video.play()\<close>; when it resolves, the first frame is requested.\<close>

definition afterSeeked :: "ExportPanel \<Rightarrow> ExportPanel" where
  "afterSeeked s =
     s\<lparr>videoPaused := False, playLog := playLog s @ [currentBlockIndex s], phase := AwaitPlay\<rparr>"

definition afterPlay :: "ExportPanel \<Rightarrow> ExportPanel" where
  "afterPlay s = s\<lparr>phase := Capturing\<rparr>"

text \<open>
  \<^verbatim>\<open>captureLoop\<close>, run at an animation frame at which the video reports \<open>t\<close> as
  \<^verbatim>\<open>currentTime\<close> and \<open>ended\<close> as \<^verbatim>\<open>ended\<close>.
\<close>

definition captureLoop :: "ExportEnv \<Rightarrow> real \<Rightarrow> bool \<Rightarrow> ExportPanel \<Rightarrow> ExportPanel" where
  "captureLoop env t ended s =
     (let block = blocks env ! currentBlockIndex s
      in if t \<ge> TimelineBlock.endTime block \<or> ended then
           (let segmentDuration = TimelineBlock.endTime block - TimelineBlock.startTime block;
                s1 = s\<lparr>videoPaused := True,
                       processedDuration := processedDuration s + segmentDuration\<rparr>;
                p = js_min 95 (js_times (js_div (processedDuration s1) (run_totalDuration env)) 95);
                s2 = onProgress env p s1;
                s3 = s2\<lparr>currentBlockIndex := currentBlockIndex s2 + 1\<rparr>
            in processNextBlock env s3)
         else s\<lparr>drawImageLog := drawImageLog s @ [currentBlockIndex s]\<rparr>)"

text \<open>
  \<^verbatim>\<open>processAndMergeSegments\<close>, up to its first \<^verbatim>\<open>await\<close>, and what it does once the first
  clip's metadata is there: the recorder is created and started, the counters are set up,
  \<^verbatim>\<open>onProgress(5)\<close> is called and the first block is processed. With an empty block
  list \<^verbatim>\<open>blocks[0].clipId\<close> raises a TypeError, whose message is abbreviated here.
\<close>

definition processAndMergeSegments :: "ExportEnv \<Rightarrow> ExportPanel \<Rightarrow> ExportPanel" where
  "processAndMergeSegments env s =
     (if \<not> canvasContext env then reject ''Could not get canvas context'' s
      else (case blocks env of
              [] \<Rightarrow> reject ''Cannot read properties of undefined'' s
            | firstBlock # rest \<Rightarrow>
                (case find_clip env firstBlock of
                   None \<Rightarrow> reject ''First clip not found'' s
                 | Some firstClip \<Rightarrow>
                     s\<lparr>videoSrc := Some (id_clip firstClip), phase := AwaitFirstMetadata\<rparr>)))"

definition afterFirstMetadata :: "ExportEnv \<Rightarrow> ExportPanel \<Rightarrow> ExportPanel" where
  "afterFirstMetadata env s =
     (let s1 = s\<lparr>audioSource := False, chunks := [], recorder := Recording,
                  processedDuration := 0, currentBlockIndex := 0\<rparr>;
          s2 = onProgress env (Num 5) s1
      in processNextBlock env s2)"

text \<open>\<^verbatim>\<open>recorder.ondataavailable\<close> with a chunk of the given size.\<close>

definition ondataavailable :: "nat \<Rightarrow> ExportPanel \<Rightarrow> ExportPanel" where
  "ondataavailable n s = (if n > 0 then s\<lparr>chunks := chunks s @ [n]\<rparr> else s)"

text \<open>
  \<^verbatim>\<open>recorder.onstop\<close> resolves the promise with the blob of all chunks; handleExport
  then goes on: download for WebM, else \<^verbatim>\<open>setExportProgress(65)\<close> and the transcode.
  After the download it reports 100 and success (the file name in the message is left
  out) and sets a timer that closes the progress display.
\<close>

definition onstop :: "ExportEnv \<Rightarrow> ExportPanel \<Rightarrow> ExportPanel" where
  "onstop env s =
     (let s1 = s\<lparr>recorder := Stopped, outcome := Resolved (chunks s)\<rparr>
      in if format (settings env) = webm then s1\<lparr>phase := Downloading\<rparr>
         else (setExportProgress (Num 65) s1)\<lparr>phase := Transcoding\<rparr>)"

definition onTranscodeProgress :: "real option \<Rightarrow> real option \<Rightarrow> ExportPanel \<Rightarrow> ExportPanel" where
  "onTranscodeProgress raw time s =
     setExportProgress (Num (transcode_report (ffmpeg_progress raw time))) s"

definition afterDownload :: "ExportPanel \<Rightarrow> ExportPanel" where
  "afterDownload s =
     (add_toast (ToastSuccess ''Video exported'') (setExportProgress (Num 100) s))\<lparr>phase := Finished\<rparr>"

definition afterTimeout :: "ExportPanel \<Rightarrow> ExportPanel" where
  "afterTimeout s = (setExportProgress (Num 0) (s\<lparr>isExporting := False\<rparr>))\<lparr>phase := Closed\<rparr>"

definition handleCancel :: "ExportPanel \<Rightarrow> ExportPanel" where
  "handleCancel s =
     add_toast (ToastPlain ''Export cancelled'') (setExportProgress (Num 0) (s\<lparr>isExporting := False\<rparr>))"

text \<open>
  \<^verbatim>\<open>handleExport\<close> from the click to the first point where it waits for the run. The
  save dialog is awaited while the Cancel button is not shown, so its answer is read from
  the environment here.
\<close>

definition handleExport :: "ExportEnv \<Rightarrow> ExportPanel \<Rightarrow> ExportPanel" where
  "handleExport env s =
     (if \<not> hasClips env then add_toast (ToastError ''No clips to export'') s
      else if fsAccessSupported env \<and> saveHandle env = SaveCancelled
        then add_toast (ToastPlain ''Export cancelled'') s
      else if fsAccessSupported env \<and> saveHandle env = SaveFailed
        then add_toast (ToastError ''Failed to select save location'') s
      else
        (let s1 = setExportProgress (Num 0) (s\<lparr>isExporting := True\<rparr>);
             s2 = (if format (settings env) \<noteq> webm \<and> \<not> ffmpegLoaded env
                   then add_toast (ToastPlain ''First-time setup: ~5-10 seconds (downloads ~25MB)'') s1
                   else s1)
         in processAndMergeSegments env s2))"

text \<open>
  The events that drive a run after the click. Each is delivered to the code that waits
  for it; an event nothing waits for changes nothing. Resource loads, seeks and
  \<^verbatim>\<open>play()\<close> are taken to succeed and the recorder to raise no error event; a failing
  transcode or download is an event of its own. The Cancel button exists only while
  \<open>isExporting\<close> holds.
\<close>

datatype event =
    LoadedMetadata
  | Seeked
  | PlayResolved
  | AnimationFrame real bool
  | DataAvailable nat
  | RecorderStop
  | FfmpegProgress "real option" "real option"
  | TranscodeDone
  | TranscodeFailed string
  | DownloadDone
  | DownloadFailed string
  | Timeout
  | CancelClick

fun step :: "ExportEnv \<Rightarrow> ExportPanel \<Rightarrow> event \<Rightarrow> ExportPanel" where
  "step env s LoadedMetadata =
     (if phase s = AwaitFirstMetadata then afterFirstMetadata env s
      else if phase s = AwaitMetadata then afterLoadedMetadata env s
      else s)"
| "step env s Seeked = (if phase s = AwaitSeeked then afterSeeked s else s)"
| "step env s PlayResolved = (if phase s = AwaitPlay then afterPlay s else s)"
| "step env s (AnimationFrame t ended) =
     (if phase s = Capturing then captureLoop env t ended s else s)"
| "step env s (DataAvailable n) =
     (if recorder s = Recording \<or> recorder s = StopRequested then ondataavailable n s else s)"
| "step env s RecorderStop = (if recorder s = StopRequested then onstop env s else s)"
| "step env s (FfmpegProgress raw time) =
     (if phase s = Transcoding then onTranscodeProgress raw time s else s)"
| "step env s TranscodeDone = (if phase s = Transcoding then s\<lparr>phase := Downloading\<rparr> else s)"
| "step env s (TranscodeFailed msg) =
     (if phase s = Transcoding then handleExport_catch (''FFmpeg transcoding failed: '' @ msg) s else s)"
| "step env s DownloadDone = (if phase s = Downloading then afterDownload s else s)"
| "step env s (DownloadFailed msg) =
     (if phase s = Downloading then handleExport_catch msg s else s)"
| "step env s Timeout = (if phase s = Finished then afterTimeout s else s)"
| "step env s CancelClick = (if isExporting s then handleCancel s else s)"

text \<open>A run: the click on Export in the initial panel, then the events in order.\<close>

definition run :: "ExportEnv \<Rightarrow> event list \<Rightarrow> ExportPanel" where
  "run env evs = foldl (step env) (handleExport env initial_panel) evs"

section \<open>Quantities used to state the properties of a run\<close>

text \<open>
  \<open>found env i\<close>: the clip of block \<open>i\<close> exists. \<open>processed_indices env k\<close>: the blocks
  below \<open>k\<close> that are played, in order. \<open>processed_through env k\<close>: the sum of their
  trimmed lengths \<^verbatim>\<open>endTime - startTime\<close>. \<open>capture_progress\<close> is the progress formula
  \<open>min(95, processed / total \<times> 95)\<close>.
\<close>

definition found :: "ExportEnv \<Rightarrow> nat \<Rightarrow> bool" where
  "found env i \<longleftrightarrow> find_clip env (blocks env ! i) \<noteq> None"

definition segmentDuration :: "ExportEnv \<Rightarrow> nat \<Rightarrow> real" where
  "segmentDuration env i =
     TimelineBlock.endTime (blocks env ! i) - TimelineBlock.startTime (blocks env ! i)"

definition processed_indices :: "ExportEnv \<Rightarrow> nat \<Rightarrow> nat list" where
  "processed_indices env k = filter (found env) [0..<k]"

definition processed_through :: "ExportEnv \<Rightarrow> nat \<Rightarrow> real" where
  "processed_through env k = sum_list (map (segmentDuration env) (processed_indices env k))"

definition capture_progress :: "real \<Rightarrow> real \<Rightarrow> jsnum" where
  "capture_progress processed tot = js_min 95 (js_times (js_div processed tot) 95)"

definition active :: "phase \<Rightarrow> bool" where
  "active ph \<longleftrightarrow> ph = AwaitMetadata \<or> ph = AwaitSeeked \<or> ph = AwaitPlay \<or> ph = Capturing"

text \<open>
  The events that the browser delivers for one block that is played to its end (the last
  frame reports \<^verbatim>\<open>ended\<close>), and for a whole run of \<open>n\<close> played blocks.
\<close>

definition play_block :: "event list" where
  "play_block = [LoadedMetadata, Seeked, PlayResolved, AnimationFrame 0 True]"

definition schedule :: "nat \<Rightarrow> event list" where
  "schedule n = LoadedMetadata # concat (replicate n play_block) @ [RecorderStop]"

text \<open>
  The progress log that a run has produced when its block index is \<open>k\<close>, and the
  invariant of the states of a run.
\<close>

definition expected_log :: "ExportEnv \<Rightarrow> nat \<Rightarrow> jsnum list" where
  "expected_log env k =
     Num 5 # map (\<lambda>i. capture_progress (processed_through env (Suc i)) (run_totalDuration env))
               (processed_indices env k)"

definition inv_rec :: "ExportPanel \<Rightarrow> bool" where
  "inv_rec s \<longleftrightarrow>
     (case recorder s of
        NotCreated \<Rightarrow> phase s = Idle \<or> phase s = AwaitFirstMetadata \<or> phase s = Failed
      | Recording \<Rightarrow> active (phase s)
      | StopRequested \<Rightarrow> phase s = Stopping
      | Stopped \<Rightarrow> phase s = Transcoding \<or> phase s = Downloading \<or> phase s = Finished
                   \<or> phase s = Closed \<or> phase s = Failed)"

definition inv_fresh :: "ExportPanel \<Rightarrow> bool" where
  "inv_fresh s \<longleftrightarrow>
     (recorder s = NotCreated \<longrightarrow>
        currentBlockIndex s = 0 \<and> processedDuration s = 0 \<and> \<not> audioSource s
        \<and> createSourceCalls s = 0 \<and> onProgressLog s = [] \<and> drawImageLog s = []
        \<and> playLog s = [])"

definition inv_proc :: "ExportEnv \<Rightarrow> ExportPanel \<Rightarrow> bool" where
  "inv_proc env s \<longleftrightarrow>
     processedDuration s = processed_through env (currentBlockIndex s)
     \<and> onProgressLog s
         = (if recorder s = NotCreated then [] else expected_log env (currentBlockIndex s))"

definition inv_audio :: "ExportPanel \<Rightarrow> bool" where
  "inv_audio s \<longleftrightarrow>
     createSourceCalls s = (if audioSource s then 1 else 0)
     \<and> (playLog s \<noteq> [] \<or> phase s = AwaitSeeked \<longrightarrow> audioSource s)"

definition inv_idx :: "ExportEnv \<Rightarrow> ExportPanel \<Rightarrow> bool" where
  "inv_idx env s \<longleftrightarrow>
     currentBlockIndex s \<le> length (blocks env)
     \<and> (active (phase s) \<longrightarrow>
          currentBlockIndex s < length (blocks env) \<and> found env (currentBlockIndex s))"

definition inv_logs :: "ExportEnv \<Rightarrow> ExportPanel \<Rightarrow> bool" where
  "inv_logs env s \<longleftrightarrow>
     (\<forall>i \<in> set (drawImageLog s). i < length (blocks env) \<and> found env i)
     \<and> (\<forall>i \<in> set (playLog s). i < length (blocks env) \<and> found env i)"

definition run_inv :: "ExportEnv \<Rightarrow> ExportPanel \<Rightarrow> bool" where
  "run_inv env s \<longleftrightarrow>
     inv_rec s \<and> inv_fresh s \<and> inv_proc env s \<and> inv_audio s \<and> inv_idx env s \<and> inv_logs env s"

text \<open>The events other than the two that run \<^verbatim>\<open>processNextBlock\<close>.\<close>

definition simple_event :: "event \<Rightarrow> bool" where
  "simple_event ev \<longleftrightarrow> ev \<noteq> LoadedMetadata \<and> (\<forall>t e. ev \<noteq> AnimationFrame t e)"

text \<open>
  The events whose handlers show no toast; and the invariant that ties the played blocks
  to the block index: the blocks played so far are the blocks below the index that have a
  clip, in order, then the current block once \<^verbatim>\<open>play()\<close> has been called; the recorder is
  stopped only past the last block; the promise is resolved only by the stopped recorder.
\<close>

fun quiet :: "event \<Rightarrow> bool" where
  "quiet (TranscodeFailed msg) = False"
| "quiet DownloadDone = False"
| "quiet (DownloadFailed msg) = False"
| "quiet CancelClick = False"
| "quiet ev = True"

fun is_resolved :: "outcome \<Rightarrow> bool" where
  "is_resolved (Resolved b) = True"
| "is_resolved other = False"

definition play_inv :: "ExportEnv \<Rightarrow> ExportPanel \<Rightarrow> bool" where
  "play_inv env s \<longleftrightarrow>
     playLog s = processed_indices env (currentBlockIndex s)
                   @ (if phase s = AwaitPlay \<or> phase s = Capturing then [currentBlockIndex s] else [])
     \<and> (if recorder s = StopRequested \<or> recorder s = Stopped
          then currentBlockIndex s = length (blocks env) else True)
     \<and> (is_resolved (outcome s) \<longrightarrow> recorder s = Stopped)"

section \<open>Concrete inputs\<close>

text \<open>
  A clip of 100 seconds, a way to write a block whose \<open>duration\<close> field is its trimmed
  length, and an environment in which the save dialog is not used and the canvas context
  exists.
\<close>

definition clip_a :: VideoClip where
  "clip_a =
     \<lparr>id_clip = ''a'', metadata = \<lparr>VideoMetadata.duration = 100, width = 640, height = 480\<rparr>,
      VideoClip.startTime = 0, VideoClip.endTime = 100,
      audioSettings = \<lparr>volume = 100, muted = False\<rparr>\<rparr>"

definition mk_block :: "string \<Rightarrow> string \<Rightarrow> real \<Rightarrow> real \<Rightarrow> real \<Rightarrow> TimelineBlock" where
  "mk_block i c ord st en =
     \<lparr>id_block = i, clipId = c, order = ord, startTime = st, endTime = en, duration = en - st\<rparr>"

definition mk_env :: "TimelineBlock list \<Rightarrow> VideoClip list \<Rightarrow> format \<Rightarrow> ExportEnv" where
  "mk_env bs cs f =
     \<lparr>env_timelineBlocks = bs, env_clips = cs, settings = \<lparr>format = f, quality = medium\<rparr>,
      fsAccessSupported = False, saveHandle = SaveGranted, canvasContext = True,
      ffmpegLoaded = True\<rparr>"

text \<open>
  \<open>remaining env k\<close>: the number of blocks from \<open>k\<close> on that are played.
  \<open>consistent_durations\<close>: the \<open>duration\<close> field of every block is its trimmed length,
  and is not negative.
\<close>

definition remaining :: "ExportEnv \<Rightarrow> nat \<Rightarrow> nat" where
  "remaining env k = length (filter (found env) [k..<length (blocks env)])"

definition consistent_durations :: "ExportEnv \<Rightarrow> bool" where
  "consistent_durations env \<longleftrightarrow>
     (\<forall>b \<in> set (blocks env).
        TimelineBlock.duration b = TimelineBlock.endTime b - TimelineBlock.startTime b
        \<and> 0 \<le> TimelineBlock.duration b)"

text \<open>
  A preview player on the given blocks, at block \<open>i\<close>, with the video at time \<open>t\<close>; and a
  store built by the store's own actions: a clip of 100 seconds with a block of its first
  20 seconds, a clip of 10 seconds with a block of all of it, the second block active and
  the playhead at the start of the second block (timeline time 20), as after a click on
  that block.
\<close>

definition player_at :: "TimelineBlock list \<Rightarrow> nat \<Rightarrow> real \<Rightarrow> VideoPlayer" where
  "player_at bs i t =
     \<lparr>videoRef = Some \<lparr>v_currentTime = t, v_paused = False\<rparr>,
      VideoPlayer.currentBlockIndex = i, isTransitioning = False, shouldAutoPlayRef = False,
      store = (updateBlockOrder bs (addClip clip_a initial_store))\<lparr>playback :=
          \<lparr>isPlaying = True, currentTime = 0, totalDuration = reduce_duration bs, activeBlockId = None\<rparr>\<rparr>\<rparr>"

definition store7 :: VideoStore where
  "store7 =
     setCurrentTime 20 (setActiveBlock (Some ''B'')
       (addBlockToTimeline (mk_block ''B'' ''b'' 1 0 10)
         (addClip (clip_a\<lparr>id_clip := ''b'', metadata := \<lparr>VideoMetadata.duration = 10, width = 640, height = 480\<rparr>,
                           VideoClip.endTime := 10\<rparr>)
           (addBlockToTimeline (mk_block ''A'' ''a'' 0 0 20)
             (addClip clip_a initial_store)))))"

section \<open>Store properties\<close>

lemma foldl_add_duration:
  "foldl (\<lambda>sum b. sum + TimelineBlock.duration b) a bs
     = a + sum_list (map TimelineBlock.duration bs)"
  by (induction bs arbitrary: a) (simp_all add: add.assoc)

lemma reduce_duration_sum_list:
  "reduce_duration bs = sum_list (map TimelineBlock.duration bs)"
  by (simp add: reduce_duration_def foldl_add_duration)

text \<open>
  Claim C8. After each of addBlockToTimeline, removeBlockFromTimeline, updateBlockOrder and
  updateBlock, the stored playback.totalDuration is the sum of the duration field over the
  timeline blocks of the resulting state.
\<close>

theorem C8_totalDuration_is_sum:
  "totalDuration (playback (apply_block_action a s))
     = sum_list (map TimelineBlock.duration (timelineBlocks (apply_block_action a s)))"
  by (cases a)
     (simp_all add: addBlockToTimeline_def removeBlockFromTimeline_def updateBlockOrder_def
        updateBlock_def Let_def reduce_duration_sum_list)

text \<open>
  Claim C9. removeClip(clipId) removes the clip with that id from clips and every timeline
  block whose clipId equals it, keeps every other clip and block (in order), and leaves the
  playback state, with its totalDuration not recomputed, and the processing queue as they
  were.
\<close>

theorem C9_removeClip_frame:
  "clips (removeClip cid s) = filter (\<lambda>c. id_clip c \<noteq> cid) (clips s)
   \<and> timelineBlocks (removeClip cid s) = filter (\<lambda>b. clipId b \<noteq> cid) (timelineBlocks s)
   \<and> set (clips (removeClip cid s)) = set (clips s) - {c. id_clip c = cid}
   \<and> set (timelineBlocks (removeClip cid s)) = set (timelineBlocks s) - {b. clipId b = cid}
   \<and> playback (removeClip cid s) = playback s
   \<and> totalDuration (playback (removeClip cid s)) = totalDuration (playback s)
   \<and> processingQueue (removeClip cid s) = processingQueue s"
  by (auto simp add: removeClip_def)

section \<open>How each handler changes the fields of the panel\<close>

lemma setExportProgress_fields [simp]:
  "isExporting (setExportProgress p s) = isExporting s"
  "exportProgress (setExportProgress p s) = p"
  "toasts (setExportProgress p s) = toasts s"
  "phase (setExportProgress p s) = phase s"
  "outcome (setExportProgress p s) = outcome s"
  "videoSrc (setExportProgress p s) = videoSrc s"
  "videoPaused (setExportProgress p s) = videoPaused s"
  "videoVolume (setExportProgress p s) = videoVolume s"
  "videoMuted (setExportProgress p s) = videoMuted s"
  "videoSeek (setExportProgress p s) = videoSeek s"
  "audioSource (setExportProgress p s) = audioSource s"
  "recorder (setExportProgress p s) = recorder s"
  "chunks (setExportProgress p s) = chunks s"
  "processedDuration (setExportProgress p s) = processedDuration s"
  "currentBlockIndex (setExportProgress p s) = currentBlockIndex s"
  "setExportProgressLog (setExportProgress p s) = setExportProgressLog s @ [p]"
  "onProgressLog (setExportProgress p s) = onProgressLog s"
  "createSourceCalls (setExportProgress p s) = createSourceCalls s"
  "drawImageLog (setExportProgress p s) = drawImageLog s"
  "playLog (setExportProgress p s) = playLog s"
  by (simp_all add: setExportProgress_def)

lemma add_toast_fields [simp]:
  "isExporting (add_toast t s) = isExporting s"
  "exportProgress (add_toast t s) = exportProgress s"
  "toasts (add_toast t s) = toasts s @ [t]"
  "phase (add_toast t s) = phase s"
  "outcome (add_toast t s) = outcome s"
  "videoSrc (add_toast t s) = videoSrc s"
  "videoPaused (add_toast t s) = videoPaused s"
  "videoVolume (add_toast t s) = videoVolume s"
  "videoMuted (add_toast t s) = videoMuted s"
  "videoSeek (add_toast t s) = videoSeek s"
  "audioSource (add_toast t s) = audioSource s"
  "recorder (add_toast t s) = recorder s"
  "chunks (add_toast t s) = chunks s"
  "processedDuration (add_toast t s) = processedDuration s"
  "currentBlockIndex (add_toast t s) = currentBlockIndex s"
  "setExportProgressLog (add_toast t s) = setExportProgressLog s"
  "onProgressLog (add_toast t s) = onProgressLog s"
  "createSourceCalls (add_toast t s) = createSourceCalls s"
  "drawImageLog (add_toast t s) = drawImageLog s"
  "playLog (add_toast t s) = playLog s"
  by (simp_all add: add_toast_def)

lemma handleExport_catch_fields [simp]:
  "isExporting (handleExport_catch msg s) = False"
  "exportProgress (handleExport_catch msg s) = Num 0"
  "toasts (handleExport_catch msg s) = toasts s @ [ToastError msg]"
  "phase (handleExport_catch msg s) = Failed"
  "outcome (handleExport_catch msg s) = outcome s"
  "videoSrc (handleExport_catch msg s) = videoSrc s"
  "videoPaused (handleExport_catch msg s) = videoPaused s"
  "videoVolume (handleExport_catch msg s) = videoVolume s"
  "videoMuted (handleExport_catch msg s) = videoMuted s"
  "videoSeek (handleExport_catch msg s) = videoSeek s"
  "audioSource (handleExport_catch msg s) = audioSource s"
  "recorder (handleExport_catch msg s) = recorder s"
  "chunks (handleExport_catch msg s) = chunks s"
  "processedDuration (handleExport_catch msg s) = processedDuration s"
  "currentBlockIndex (handleExport_catch msg s) = currentBlockIndex s"
  "setExportProgressLog (handleExport_catch msg s) = setExportProgressLog s @ [Num 0]"
  "onProgressLog (handleExport_catch msg s) = onProgressLog s"
  "createSourceCalls (handleExport_catch msg s) = createSourceCalls s"
  "drawImageLog (handleExport_catch msg s) = drawImageLog s"
  "playLog (handleExport_catch msg s) = playLog s"
  by (simp_all add: handleExport_catch_def)

lemma reject_fields [simp]:
  "isExporting (reject msg s) = False"
  "exportProgress (reject msg s) = Num 0"
  "toasts (reject msg s) = toasts s @ [ToastError msg]"
  "phase (reject msg s) = Failed"
  "outcome (reject msg s) = Rejected msg"
  "videoSrc (reject msg s) = videoSrc s"
  "videoPaused (reject msg s) = videoPaused s"
  "videoVolume (reject msg s) = videoVolume s"
  "videoMuted (reject msg s) = videoMuted s"
  "videoSeek (reject msg s) = videoSeek s"
  "audioSource (reject msg s) = audioSource s"
  "recorder (reject msg s) = recorder s"
  "chunks (reject msg s) = chunks s"
  "processedDuration (reject msg s) = processedDuration s"
  "currentBlockIndex (reject msg s) = currentBlockIndex s"
  "setExportProgressLog (reject msg s) = setExportProgressLog s @ [Num 0]"
  "onProgressLog (reject msg s) = onProgressLog s"
  "createSourceCalls (reject msg s) = createSourceCalls s"
  "drawImageLog (reject msg s) = drawImageLog s"
  "playLog (reject msg s) = playLog s"
  by (simp_all add: reject_def)

lemma onProgress_fields [simp]:
  "isExporting (onProgress env p s) = isExporting s"
  "exportProgress (onProgress env p s) = (if format (settings env) = webm then p else js_round (js_times p 0.6))"
  "toasts (onProgress env p s) = toasts s"
  "phase (onProgress env p s) = phase s"
  "outcome (onProgress env p s) = outcome s"
  "videoSrc (onProgress env p s) = videoSrc s"
  "videoPaused (onProgress env p s) = videoPaused s"
  "videoVolume (onProgress env p s) = videoVolume s"
  "videoMuted (onProgress env p s) = videoMuted s"
  "videoSeek (onProgress env p s) = videoSeek s"
  "audioSource (onProgress env p s) = audioSource s"
  "recorder (onProgress env p s) = recorder s"
  "chunks (onProgress env p s) = chunks s"
  "processedDuration (onProgress env p s) = processedDuration s"
  "currentBlockIndex (onProgress env p s) = currentBlockIndex s"
  "setExportProgressLog (onProgress env p s) = setExportProgressLog s @ [if format (settings env) = webm then p else js_round (js_times p 0.6)]"
  "onProgressLog (onProgress env p s) = onProgressLog s @ [p]"
  "createSourceCalls (onProgress env p s) = createSourceCalls s"
  "drawImageLog (onProgress env p s) = drawImageLog s"
  "playLog (onProgress env p s) = playLog s"
  by (simp_all add: onProgress_def Let_def)

lemma afterSeeked_fields [simp]:
  "isExporting (afterSeeked s) = isExporting s"
  "exportProgress (afterSeeked s) = exportProgress s"
  "toasts (afterSeeked s) = toasts s"
  "phase (afterSeeked s) = AwaitPlay"
  "outcome (afterSeeked s) = outcome s"
  "videoSrc (afterSeeked s) = videoSrc s"
  "videoPaused (afterSeeked s) = False"
  "videoVolume (afterSeeked s) = videoVolume s"
  "videoMuted (afterSeeked s) = videoMuted s"
  "videoSeek (afterSeeked s) = videoSeek s"
  "audioSource (afterSeeked s) = audioSource s"
  "recorder (afterSeeked s) = recorder s"
  "chunks (afterSeeked s) = chunks s"
  "processedDuration (afterSeeked s) = processedDuration s"
  "currentBlockIndex (afterSeeked s) = currentBlockIndex s"
  "setExportProgressLog (afterSeeked s) = setExportProgressLog s"
  "onProgressLog (afterSeeked s) = onProgressLog s"
  "createSourceCalls (afterSeeked s) = createSourceCalls s"
  "drawImageLog (afterSeeked s) = drawImageLog s"
  "playLog (afterSeeked s) = playLog s @ [currentBlockIndex s]"
  by (simp_all add: afterSeeked_def)

lemma afterPlay_fields [simp]:
  "isExporting (afterPlay s) = isExporting s"
  "exportProgress (afterPlay s) = exportProgress s"
  "toasts (afterPlay s) = toasts s"
  "phase (afterPlay s) = Capturing"
  "outcome (afterPlay s) = outcome s"
  "videoSrc (afterPlay s) = videoSrc s"
  "videoPaused (afterPlay s) = videoPaused s"
  "videoVolume (afterPlay s) = videoVolume s"
  "videoMuted (afterPlay s) = videoMuted s"
  "videoSeek (afterPlay s) = videoSeek s"
  "audioSource (afterPlay s) = audioSource s"
  "recorder (afterPlay s) = recorder s"
  "chunks (afterPlay s) = chunks s"
  "processedDuration (afterPlay s) = processedDuration s"
  "currentBlockIndex (afterPlay s) = currentBlockIndex s"
  "setExportProgressLog (afterPlay s) = setExportProgressLog s"
  "onProgressLog (afterPlay s) = onProgressLog s"
  "createSourceCalls (afterPlay s) = createSourceCalls s"
  "drawImageLog (afterPlay s) = drawImageLog s"
  "playLog (afterPlay s) = playLog s"
  by (simp_all add: afterPlay_def)

lemma ondataavailable_fields [simp]:
  "isExporting (ondataavailable n s) = isExporting s"
  "exportProgress (ondataavailable n s) = exportProgress s"
  "toasts (ondataavailable n s) = toasts s"
  "phase (ondataavailable n s) = phase s"
  "outcome (ondataavailable n s) = outcome s"
  "videoSrc (ondataavailable n s) = videoSrc s"
  "videoPaused (ondataavailable n s) = videoPaused s"
  "videoVolume (ondataavailable n s) = videoVolume s"
  "videoMuted (ondataavailable n s) = videoMuted s"
  "videoSeek (ondataavailable n s) = videoSeek s"
  "audioSource (ondataavailable n s) = audioSource s"
  "recorder (ondataavailable n s) = recorder s"
  "chunks (ondataavailable n s) = (if n > 0 then chunks s @ [n] else chunks s)"
  "processedDuration (ondataavailable n s) = processedDuration s"
  "currentBlockIndex (ondataavailable n s) = currentBlockIndex s"
  "setExportProgressLog (ondataavailable n s) = setExportProgressLog s"
  "onProgressLog (ondataavailable n s) = onProgressLog s"
  "createSourceCalls (ondataavailable n s) = createSourceCalls s"
  "drawImageLog (ondataavailable n s) = drawImageLog s"
  "playLog (ondataavailable n s) = playLog s"
  by (simp_all add: ondataavailable_def)

lemma onstop_fields [simp]:
  "isExporting (onstop env s) = isExporting s"
  "exportProgress (onstop env s) = (if format (settings env) = webm then exportProgress s else Num 65)"
  "toasts (onstop env s) = toasts s"
  "phase (onstop env s) = (if format (settings env) = webm then Downloading else Transcoding)"
  "outcome (onstop env s) = Resolved (chunks s)"
  "videoSrc (onstop env s) = videoSrc s"
  "videoPaused (onstop env s) = videoPaused s"
  "videoVolume (onstop env s) = videoVolume s"
  "videoMuted (onstop env s) = videoMuted s"
  "videoSeek (onstop env s) = videoSeek s"
  "audioSource (onstop env s) = audioSource s"
  "recorder (onstop env s) = Stopped"
  "chunks (onstop env s) = chunks s"
  "processedDuration (onstop env s) = processedDuration s"
  "currentBlockIndex (onstop env s) = currentBlockIndex s"
  "setExportProgressLog (onstop env s) = (if format (settings env) = webm then setExportProgressLog s else setExportProgressLog s @ [Num 65])"
  "onProgressLog (onstop env s) = onProgressLog s"
  "createSourceCalls (onstop env s) = createSourceCalls s"
  "drawImageLog (onstop env s) = drawImageLog s"
  "playLog (onstop env s) = playLog s"
  by (simp_all add: onstop_def Let_def)

lemma onTranscodeProgress_fields [simp]:
  "isExporting (onTranscodeProgress raw time s) = isExporting s"
  "exportProgress (onTranscodeProgress raw time s) = Num (transcode_report (ffmpeg_progress raw time))"
  "toasts (onTranscodeProgress raw time s) = toasts s"
  "phase (onTranscodeProgress raw time s) = phase s"
  "outcome (onTranscodeProgress raw time s) = outcome s"
  "videoSrc (onTranscodeProgress raw time s) = videoSrc s"
  "videoPaused (onTranscodeProgress raw time s) = videoPaused s"
  "videoVolume (onTranscodeProgress raw time s) = videoVolume s"
  "videoMuted (onTranscodeProgress raw time s) = videoMuted s"
  "videoSeek (onTranscodeProgress raw time s) = videoSeek s"
  "audioSource (onTranscodeProgress raw time s) = audioSource s"
  "recorder (onTranscodeProgress raw time s) = recorder s"
  "chunks (onTranscodeProgress raw time s) = chunks s"
  "processedDuration (onTranscodeProgress raw time s) = processedDuration s"
  "currentBlockIndex (onTranscodeProgress raw time s) = currentBlockIndex s"
  "setExportProgressLog (onTranscodeProgress raw time s) = setExportProgressLog s @ [Num (transcode_report (ffmpeg_progress raw time))]"
  "onProgressLog (onTranscodeProgress raw time s) = onProgressLog s"
  "createSourceCalls (onTranscodeProgress raw time s) = createSourceCalls s"
  "drawImageLog (onTranscodeProgress raw time s) = drawImageLog s"
  "playLog (onTranscodeProgress raw time s) = playLog s"
  by (simp_all add: onTranscodeProgress_def)

lemma afterDownload_fields [simp]:
  "isExporting (afterDownload s) = isExporting s"
  "exportProgress (afterDownload s) = Num 100"
  "toasts (afterDownload s) = toasts s @ [ToastSuccess ''Video exported'']"
  "phase (afterDownload s) = Finished"
  "outcome (afterDownload s) = outcome s"
  "videoSrc (afterDownload s) = videoSrc s"
  "videoPaused (afterDownload s) = videoPaused s"
  "videoVolume (afterDownload s) = videoVolume s"
  "videoMuted (afterDownload s) = videoMuted s"
  "videoSeek (afterDownload s) = videoSeek s"
  "audioSource (afterDownload s) = audioSource s"
  "recorder (afterDownload s) = recorder s"
  "chunks (afterDownload s) = chunks s"
  "processedDuration (afterDownload s) = processedDuration s"
  "currentBlockIndex (afterDownload s) = currentBlockIndex s"
  "setExportProgressLog (afterDownload s) = setExportProgressLog s @ [Num 100]"
  "onProgressLog (afterDownload s) = onProgressLog s"
  "createSourceCalls (afterDownload s) = createSourceCalls s"
  "drawImageLog (afterDownload s) = drawImageLog s"
  "playLog (afterDownload s) = playLog s"
  by (simp_all add: afterDownload_def)

lemma afterTimeout_fields [simp]:
  "isExporting (afterTimeout s) = False"
  "exportProgress (afterTimeout s) = Num 0"
  "toasts (afterTimeout s) = toasts s"
  "phase (afterTimeout s) = Closed"
  "outcome (afterTimeout s) = outcome s"
  "videoSrc (afterTimeout s) = videoSrc s"
  "videoPaused (afterTimeout s) = videoPaused s"
  "videoVolume (afterTimeout s) = videoVolume s"
  "videoMuted (afterTimeout s) = videoMuted s"
  "videoSeek (afterTimeout s) = videoSeek s"
  "audioSource (afterTimeout s) = audioSource s"
  "recorder (afterTimeout s) = recorder s"
  "chunks (afterTimeout s) = chunks s"
  "processedDuration (afterTimeout s) = processedDuration s"
  "currentBlockIndex (afterTimeout s) = currentBlockIndex s"
  "setExportProgressLog (afterTimeout s) = setExportProgressLog s @ [Num 0]"
  "onProgressLog (afterTimeout s) = onProgressLog s"
  "createSourceCalls (afterTimeout s) = createSourceCalls s"
  "drawImageLog (afterTimeout s) = drawImageLog s"
  "playLog (afterTimeout s) = playLog s"
  by (simp_all add: afterTimeout_def)

lemma handleCancel_fields [simp]:
  "isExporting (handleCancel s) = False"
  "exportProgress (handleCancel s) = Num 0"
  "toasts (handleCancel s) = toasts s @ [ToastPlain ''Export cancelled'']"
  "phase (handleCancel s) = phase s"
  "outcome (handleCancel s) = outcome s"
  "videoSrc (handleCancel s) = videoSrc s"
  "videoPaused (handleCancel s) = videoPaused s"
  "videoVolume (handleCancel s) = videoVolume s"
  "videoMuted (handleCancel s) = videoMuted s"
  "videoSeek (handleCancel s) = videoSeek s"
  "audioSource (handleCancel s) = audioSource s"
  "recorder (handleCancel s) = recorder s"
  "chunks (handleCancel s) = chunks s"
  "processedDuration (handleCancel s) = processedDuration s"
  "currentBlockIndex (handleCancel s) = currentBlockIndex s"
  "setExportProgressLog (handleCancel s) = setExportProgressLog s @ [Num 0]"
  "onProgressLog (handleCancel s) = onProgressLog s"
  "createSourceCalls (handleCancel s) = createSourceCalls s"
  "drawImageLog (handleCancel s) = drawImageLog s"
  "playLog (handleCancel s) = playLog s"
  by (simp_all add: handleCancel_def)


section \<open>Runs, block skipping and the cumulative processed duration\<close>

lemma run_Nil: "run env [] = handleExport env initial_panel"
  by (simp add: run_def)

lemma run_snoc: "run env (evs @ [e]) = step env (run env evs) e"
  by (simp add: run_def)

lemma run_induct:
  assumes "P (handleExport env initial_panel)"
    and "\<And>s ev. P s \<Longrightarrow> P (step env s ev)"
  shows "P (run env evs)"
proof (induction evs rule: rev_induct)
  case Nil
  show ?case using assms(1) by (simp add: run_Nil)
next
  case (snoc e evs)
  then show ?case using assms(2) by (simp add: run_snoc)
qed

lemma processNextBlock_shape:
  "\<exists>k. currentBlockIndex s \<le> k
     \<and> (\<forall>i. currentBlockIndex s \<le> i \<and> i < k \<longrightarrow> i < length (blocks env) \<and> \<not> found env i)
     \<and> ((length (blocks env) \<le> k \<and> (currentBlockIndex s \<le> length (blocks env) \<longrightarrow> k = length (blocks env))
          \<and> processNextBlock env s = s\<lparr>currentBlockIndex := k, recorder := StopRequested, phase := Stopping\<rparr>)
        \<or> (\<exists>clip. k < length (blocks env) \<and> find_clip env (blocks env ! k) = Some clip
              \<and> processNextBlock env s
                  = s\<lparr>currentBlockIndex := k, videoSrc := Some (id_clip clip), phase := AwaitMetadata\<rparr>))"
proof (induction env s rule: processNextBlock.induct)
  case (1 env s)
  show ?case
  proof (cases "currentBlockIndex s \<ge> length (blocks env)")
    case True
    then have "processNextBlock env s = s\<lparr>currentBlockIndex := currentBlockIndex s, recorder := StopRequested, phase := Stopping\<rparr>"
      by (simp add: processNextBlock.simps)
    with True show ?thesis by (intro exI[of _ "currentBlockIndex s"]) auto
  next
    case False
    show ?thesis
    proof (cases "find_clip env (blocks env ! currentBlockIndex s)")
      case None
      let ?s' = "s\<lparr>currentBlockIndex := currentBlockIndex s + 1\<rparr>"
      from "1.IH"[OF False None] obtain k where k:
        "currentBlockIndex ?s' \<le> k"
        "\<forall>i. currentBlockIndex ?s' \<le> i \<and> i < k \<longrightarrow> i < length (blocks env) \<and> \<not> found env i"
        "(length (blocks env) \<le> k \<and> (currentBlockIndex ?s' \<le> length (blocks env) \<longrightarrow> k = length (blocks env))
          \<and> processNextBlock env ?s' = ?s'\<lparr>currentBlockIndex := k, recorder := StopRequested, phase := Stopping\<rparr>)
        \<or> (\<exists>clip. k < length (blocks env) \<and> find_clip env (blocks env ! k) = Some clip
              \<and> processNextBlock env ?s'
                  = ?s'\<lparr>currentBlockIndex := k, videoSrc := Some (id_clip clip), phase := AwaitMetadata\<rparr>)"
        by blast
      have eq: "processNextBlock env s = processNextBlock env ?s'"
        using False None by (subst processNextBlock.simps) simp
      have skip: "\<forall>i. currentBlockIndex s \<le> i \<and> i < k \<longrightarrow> i < length (blocks env) \<and> \<not> found env i"
      proof (intro allI impI)
        fix i assume "currentBlockIndex s \<le> i \<and> i < k"
        then consider "i = currentBlockIndex s" | "currentBlockIndex ?s' \<le> i \<and> i < k" by force
        then show "i < length (blocks env) \<and> \<not> found env i"
        proof cases
          case 1 then show ?thesis using False None by (simp add: found_def)
        next
          case 2 then show ?thesis using k(2) by blast
        qed
      qed
      from k(1) have le: "currentBlockIndex s \<le> k" by simp
      from k(3) show ?thesis
      proof
        assume a: "length (blocks env) \<le> k \<and> (currentBlockIndex ?s' \<le> length (blocks env) \<longrightarrow> k = length (blocks env))
          \<and> processNextBlock env ?s' = ?s'\<lparr>currentBlockIndex := k, recorder := StopRequested, phase := Stopping\<rparr>"
        then have "processNextBlock env s = s\<lparr>currentBlockIndex := k, recorder := StopRequested, phase := Stopping\<rparr>"
          using eq by simp
        moreover have "k = length (blocks env)" using a False by simp
        ultimately show ?thesis using le skip a by (intro exI[of _ k]) simp
      next
        assume "\<exists>clip. k < length (blocks env) \<and> find_clip env (blocks env ! k) = Some clip
              \<and> processNextBlock env ?s'
                  = ?s'\<lparr>currentBlockIndex := k, videoSrc := Some (id_clip clip), phase := AwaitMetadata\<rparr>"
        then obtain clip where c: "k < length (blocks env)" "find_clip env (blocks env ! k) = Some clip"
          "processNextBlock env ?s' = ?s'\<lparr>currentBlockIndex := k, videoSrc := Some (id_clip clip), phase := AwaitMetadata\<rparr>"
          by blast
        then have "processNextBlock env s = s\<lparr>currentBlockIndex := k, videoSrc := Some (id_clip clip), phase := AwaitMetadata\<rparr>"
          using eq by simp
        then show ?thesis using le skip c(1,2) by (intro exI[of _ k]) auto
      qed
    next
      case (Some clip)
      then have "processNextBlock env s = s\<lparr>currentBlockIndex := currentBlockIndex s, videoSrc := Some (id_clip clip), phase := AwaitMetadata\<rparr>"
        using False by (subst processNextBlock.simps) simp
      with False Some show ?thesis by (intro exI[of _ "currentBlockIndex s"]) auto
    qed
  qed
qed

lemma processed_indices_skip:
  assumes "j \<le> k" and "\<forall>i. j \<le> i \<and> i < k \<longrightarrow> i < n \<and> \<not> found env i"
  shows "processed_indices env k = processed_indices env j"
proof -
  have "[0..<k] = [0..<j] @ [j..<k]" using assms(1)
    by (metis le_add_diff_inverse upt_add_eq_append zero_le)
  moreover have "filter (found env) [j..<k] = []" using assms(2) by (auto simp: filter_empty_conv)
  ultimately show ?thesis by (simp add: processed_indices_def)
qed

lemma processed_indices_Suc:
  "processed_indices env (Suc i) = processed_indices env i @ (if found env i then [i] else [])"
  by (simp add: processed_indices_def)

lemma processed_through_Suc:
  "processed_through env (Suc i) = processed_through env i + (if found env i then segmentDuration env i else 0)"
  by (simp add: processed_through_def processed_indices_Suc)

section \<open>The invariant of a run\<close>

lemma handleExport_closure:
  "recorder (handleExport env s) = recorder s
   \<and> currentBlockIndex (handleExport env s) = currentBlockIndex s
   \<and> processedDuration (handleExport env s) = processedDuration s
   \<and> audioSource (handleExport env s) = audioSource s
   \<and> createSourceCalls (handleExport env s) = createSourceCalls s
   \<and> onProgressLog (handleExport env s) = onProgressLog s
   \<and> drawImageLog (handleExport env s) = drawImageLog s
   \<and> playLog (handleExport env s) = playLog s
   \<and> chunks (handleExport env s) = chunks s
   \<and> (phase (handleExport env s) = phase s \<or> phase (handleExport env s) = AwaitFirstMetadata
        \<or> phase (handleExport env s) = Failed)"
  unfolding handleExport_def processAndMergeSegments_def Let_def
  by (simp split: list.split option.split)

lemma initial_panel_fields:
  "recorder initial_panel = NotCreated" "currentBlockIndex initial_panel = 0"
  "processedDuration initial_panel = 0" "audioSource initial_panel = False"
  "createSourceCalls initial_panel = 0" "onProgressLog initial_panel = []"
  "drawImageLog initial_panel = []" "playLog initial_panel = []" "chunks initial_panel = []"
  "outcome initial_panel = Pending" "phase initial_panel = Idle"
  "isExporting initial_panel = False" "toasts initial_panel = []"
  "setExportProgressLog initial_panel = []" "exportProgress initial_panel = Num 0"
  by (simp_all add: initial_panel_def)

lemma processed_through_0: "processed_through env 0 = 0"
  by (simp add: processed_through_def processed_indices_def)

lemma expected_log_0: "expected_log env 0 = [Num 5]"
  by (simp add: expected_log_def processed_indices_def)

lemma expected_log_Suc:
  "found env i \<Longrightarrow> expected_log env (Suc i)
     = expected_log env i @ [capture_progress (processed_through env (Suc i)) (run_totalDuration env)]"
  by (simp add: expected_log_def processed_indices_Suc)

lemmas inv_defs = inv_rec_def inv_fresh_def inv_proc_def inv_audio_def inv_idx_def inv_logs_def

lemma inv_init: "run_inv env (handleExport env initial_panel)"
  using handleExport_closure[of env initial_panel]
  by (auto simp add: run_inv_def inv_defs active_def processed_through_0 initial_panel_fields)

lemma inv_processNextBlock:
  assumes "currentBlockIndex s \<le> length (blocks env)"
    and "processedDuration s = processed_through env (currentBlockIndex s)"
    and "recorder s = Recording"
    and "onProgressLog s = expected_log env (currentBlockIndex s)"
    and "inv_audio s" and "phase s \<noteq> AwaitSeeked"
    and "inv_logs env s"
  shows "run_inv env (processNextBlock env s)"
proof -
  from processNextBlock_shape[of s env] obtain k where k:
    "currentBlockIndex s \<le> k"
    "\<forall>i. currentBlockIndex s \<le> i \<and> i < k \<longrightarrow> i < length (blocks env) \<and> \<not> found env i"
    "(length (blocks env) \<le> k \<and> (currentBlockIndex s \<le> length (blocks env) \<longrightarrow> k = length (blocks env))
        \<and> processNextBlock env s = s\<lparr>currentBlockIndex := k, recorder := StopRequested, phase := Stopping\<rparr>)
     \<or> (\<exists>clip. k < length (blocks env) \<and> find_clip env (blocks env ! k) = Some clip
            \<and> processNextBlock env s
                = s\<lparr>currentBlockIndex := k, videoSrc := Some (id_clip clip), phase := AwaitMetadata\<rparr>)"
    by blast
  have pi: "processed_indices env k = processed_indices env (currentBlockIndex s)"
    using processed_indices_skip[OF k(1) k(2)] .
  then have pt: "processed_through env k = processed_through env (currentBlockIndex s)"
    and el: "expected_log env k = expected_log env (currentBlockIndex s)"
    by (simp_all add: processed_through_def expected_log_def)
  from k(3) show ?thesis
  proof
    assume a: "length (blocks env) \<le> k \<and> (currentBlockIndex s \<le> length (blocks env) \<longrightarrow> k = length (blocks env))
        \<and> processNextBlock env s = s\<lparr>currentBlockIndex := k, recorder := StopRequested, phase := Stopping\<rparr>"
    then have "k = length (blocks env)" using assms(1) by simp
    with a assms pt el show ?thesis
      by (simp add: run_inv_def inv_defs active_def)
  next
    assume "\<exists>clip. k < length (blocks env) \<and> find_clip env (blocks env ! k) = Some clip
            \<and> processNextBlock env s
                = s\<lparr>currentBlockIndex := k, videoSrc := Some (id_clip clip), phase := AwaitMetadata\<rparr>"
    then obtain clip where c: "k < length (blocks env)" "find_clip env (blocks env ! k) = Some clip"
      "processNextBlock env s = s\<lparr>currentBlockIndex := k, videoSrc := Some (id_clip clip), phase := AwaitMetadata\<rparr>"
      by blast
    with assms pt el show ?thesis
      by (simp add: run_inv_def inv_defs active_def found_def)
  qed
qed

lemma inv_afterFirstMetadata:
  assumes "run_inv env s" and "phase s = AwaitFirstMetadata"
  shows "run_inv env (afterFirstMetadata env s)"
proof -
  from assms have r: "recorder s = NotCreated"
    by (auto simp add: run_inv_def inv_rec_def active_def split: recorder_state.splits)
  with assms have n: "drawImageLog s = []" "playLog s = []" "createSourceCalls s = 0" "onProgressLog s = []"
    by (simp_all add: run_inv_def inv_fresh_def)
  show ?thesis
    unfolding afterFirstMetadata_def Let_def
    by (rule inv_processNextBlock)
       (simp_all add: n processed_through_0 expected_log_0 inv_audio_def inv_logs_def assms(2))
qed

lemma inv_afterLoadedMetadata:
  assumes "run_inv env s" and "phase s = AwaitMetadata"
  shows "run_inv env (afterLoadedMetadata env s)"
proof -
  from assms have f: "found env (currentBlockIndex s)" by (simp add: run_inv_def inv_idx_def active_def)
  then obtain clip where c: "find_clip env (blocks env ! currentBlockIndex s) = Some clip"
    by (auto simp add: found_def)
  from assms have r: "recorder s = Recording"
    by (auto simp add: run_inv_def inv_rec_def active_def split: recorder_state.splits)
  show ?thesis using assms c r
    by (simp add: afterLoadedMetadata_def Let_def run_inv_def inv_defs active_def)
qed

lemma captureLoop_boundary:
  assumes "t \<ge> TimelineBlock.endTime (blocks env ! currentBlockIndex s) \<or> ended"
  shows "captureLoop env t ended s = processNextBlock env
       ((onProgress env (capture_progress (processedDuration s + segmentDuration env (currentBlockIndex s)) (run_totalDuration env))
          (s\<lparr>videoPaused := True, processedDuration := processedDuration s + segmentDuration env (currentBlockIndex s)\<rparr>))
         \<lparr>currentBlockIndex := Suc (currentBlockIndex s)\<rparr>)"
  unfolding captureLoop_def Let_def segmentDuration_def capture_progress_def
  using assms by simp

lemma captureLoop_draw:
  assumes "\<not> (t \<ge> TimelineBlock.endTime (blocks env ! currentBlockIndex s) \<or> ended)"
  shows "captureLoop env t ended s = s\<lparr>drawImageLog := drawImageLog s @ [currentBlockIndex s]\<rparr>"
  unfolding captureLoop_def Let_def
  using assms by (simp only: if_False)

lemma inv_captureLoop:
  assumes "run_inv env s" and "phase s = Capturing"
  shows "run_inv env (captureLoop env t ended s)"
proof -
  from assms have r: "recorder s = Recording"
    by (auto simp add: run_inv_def inv_rec_def active_def split: recorder_state.splits)
  from assms r have b: "currentBlockIndex s < length (blocks env)" "found env (currentBlockIndex s)"
    "processedDuration s = processed_through env (currentBlockIndex s)"
    "onProgressLog s = expected_log env (currentBlockIndex s)"
    "inv_audio s" "inv_logs env s"
    by (simp_all add: run_inv_def inv_idx_def inv_proc_def active_def)
  show ?thesis
  proof (cases "t \<ge> TimelineBlock.endTime (blocks env ! currentBlockIndex s) \<or> ended")
    case True
    have pt: "processedDuration s + segmentDuration env (currentBlockIndex s)
                = processed_through env (Suc (currentBlockIndex s))"
      using b(2,3) by (simp add: processed_through_Suc)
    show ?thesis
      unfolding captureLoop_boundary[OF True] pt
      by (rule inv_processNextBlock)
         (use b r assms(2) in \<open>simp_all add: expected_log_Suc inv_audio_def inv_logs_def\<close>)
  next
    case False
    show ?thesis
      unfolding captureLoop_draw[OF False]
      using assms(2) b r by (simp add: run_inv_def inv_defs active_def)
  qed
qed


lemma simple_rec: "simple_event ev \<Longrightarrow> inv_rec s \<Longrightarrow> inv_rec (step env s ev)"
  by (cases ev) (auto simp add: simple_event_def inv_rec_def active_def split: recorder_state.splits)

lemma simple_fresh: "simple_event ev \<Longrightarrow> inv_rec s \<Longrightarrow> inv_fresh s \<Longrightarrow> inv_fresh (step env s ev)"
  by (cases ev) (auto simp add: simple_event_def inv_rec_def inv_fresh_def active_def)

lemma simple_proc: "simple_event ev \<Longrightarrow> inv_proc env s \<Longrightarrow> inv_proc env (step env s ev)"
  by (cases ev) (auto simp add: simple_event_def inv_proc_def)

lemma simple_audio: "simple_event ev \<Longrightarrow> inv_audio s \<Longrightarrow> inv_audio (step env s ev)"
  by (cases ev) (auto simp add: simple_event_def inv_audio_def)

lemma simple_idx: "simple_event ev \<Longrightarrow> inv_idx env s \<Longrightarrow> inv_idx env (step env s ev)"
  by (cases ev) (auto simp add: simple_event_def inv_idx_def active_def)

lemma simple_logs: "simple_event ev \<Longrightarrow> inv_idx env s \<Longrightarrow> inv_logs env s \<Longrightarrow> inv_logs env (step env s ev)"
  by (cases ev) (auto simp add: simple_event_def inv_idx_def inv_logs_def active_def)

lemma inv_step: "run_inv env s \<Longrightarrow> run_inv env (step env s ev)"
proof (cases "simple_event ev")
  case True
  assume "run_inv env s"
  with True show ?thesis
    by (simp add: run_inv_def simple_rec simple_fresh simple_proc simple_audio simple_idx simple_logs)
next
  case False
  assume i: "run_inv env s"
  from False consider "ev = LoadedMetadata" | t e where "ev = AnimationFrame t e"
    by (auto simp add: simple_event_def)
  then show ?thesis
  proof cases
    case 1
    with i show ?thesis by (simp add: inv_afterFirstMetadata inv_afterLoadedMetadata)
  next
    case 2
    with i show ?thesis by (simp add: inv_captureLoop)
  qed
qed

lemma run_inv_run: "run_inv env (run env evs)"
  by (rule run_induct) (simp_all add: inv_init inv_step)

section \<open>Properties of the export run\<close>

lemmas run_eval =
  run_def handleExport_def hasClips_def processAndMergeSegments_def blocks_def sortedBlocks_def
  find_clip_def afterFirstMetadata_def afterLoadedMetadata_def captureLoop_def
  run_totalDuration_def reduce_duration_def js_div_def initial_panel_def processNextBlock.simps
  Let_def mk_env_def mk_block_def clip_a_def schedule_def play_block_def
  setExportProgress_def add_toast_def onProgress_def afterSeeked_def afterPlay_def
  ondataavailable_def onstop_def handleCancel_def afterDownload_def afterTimeout_def
  onTranscodeProgress_def handleExport_catch_def reject_def

lemma js_above_capture: "\<not> js_above (capture_progress a b) 95"
  by (simp add: capture_progress_def js_div_def)

text \<open>
  Claim C5. In the capture stage of every run, the first progress report is 5, made in the
  step that starts the recorder; after the boundary of each played block the report is
  \<open>min(95, processed / total \<times> 95)\<close>, where \<open>processed\<close> is the cumulative trimmed length
  of the blocks played so far and \<open>total\<close> the sum of the duration fields of all blocks;
  no report of the capture stage is above 95.
\<close>

theorem C5_capture_progress:
  "onProgressLog (run env evs)
     = (if recorder (run env evs) = NotCreated then []
        else Num 5 # map (\<lambda>i. js_min 95 (js_times (js_div (processed_through env (Suc i))
                                                   (run_totalDuration env)) 95))
                        (processed_indices env (currentBlockIndex (run env evs))))
   \<and> (\<forall>p \<in> set (onProgressLog (run env evs)). \<not> js_above p 95)"
proof -
  have i: "inv_proc env (run env evs)" using run_inv_run[of env evs] by (simp add: run_inv_def)
  then have l: "onProgressLog (run env evs)
     = (if recorder (run env evs) = NotCreated then [] else expected_log env (currentBlockIndex (run env evs)))"
    by (simp add: inv_proc_def)
  have "\<forall>p \<in> set (expected_log env k). \<not> js_above p 95" for k
    by (auto simp add: expected_log_def js_above_capture)
  with l show ?thesis
    by (simp add: expected_log_def capture_progress_def)
qed

theorem C5_capture_progress_witness:
  "onProgressLog (run (mk_env [mk_block ''B1'' ''a'' 0 0 1, mk_block ''B2'' ''a'' 1 1 100] [clip_a] webm) (schedule 2))
     = [Num 5, Num (95 / 100), Num 95]
   \<and> Num 95 \<in> set (onProgressLog (run (mk_env [mk_block ''B1'' ''a'' 0 0 1, mk_block ''B2'' ''a'' 1 1 100] [clip_a] webm) (schedule 2)))
   \<and> \<not> js_above (Num 95) 95"
proof -
  have e: "onProgressLog (run (mk_env [mk_block ''B1'' ''a'' 0 0 1, mk_block ''B2'' ''a'' 1 1 100] [clip_a] webm) (schedule 2))
     = [Num 5, Num (95 / 100), Num 95]"
    by (simp add: run_eval eval_nat_numeral)
  then have m: "Num 95 \<in> set (onProgressLog (run (mk_env [mk_block ''B1'' ''a'' 0 0 1, mk_block ''B2'' ''a'' 1 1 100] [clip_a] webm) (schedule 2)))"
    by simp
  from C5_capture_progress[of "mk_env [mk_block ''B1'' ''a'' 0 0 1, mk_block ''B2'' ''a'' 1 1 100] [clip_a] webm" "schedule 2"] m
  have "\<not> js_above (Num 95) 95" by blast
  with e m show ?thesis by blast
qed

lemma step_dead:
  "phase s = Idle \<or> phase s = Failed \<Longrightarrow> recorder s = NotCreated \<Longrightarrow> \<not> isExporting s
     \<Longrightarrow> step env s ev = s"
  by (cases ev) auto

lemma foldl_dead:
  "phase s = Idle \<or> phase s = Failed \<Longrightarrow> recorder s = NotCreated \<Longrightarrow> \<not> isExporting s
     \<Longrightarrow> foldl (step env) s evs = s"
  by (induction evs) (simp_all add: step_dead)

text \<open>
  Claim C4. When the block list is empty at the click on Export, the run ends at once with
  the error report "No clips to export": whatever events follow, the recorder is never
  created or started, no source is loaded, nothing is played and no frame is captured.
\<close>

theorem C4_empty_timeline:
  assumes "env_timelineBlocks env = []"
  shows "run env evs = initial_panel\<lparr>toasts := [ToastError ''No clips to export'']\<rparr>
    \<and> recorder (run env evs) = NotCreated
    \<and> phase (run env evs) = Idle
    \<and> \<not> isExporting (run env evs)
    \<and> videoSrc (run env evs) = None
    \<and> createSourceCalls (run env evs) = 0
    \<and> playLog (run env evs) = []
    \<and> drawImageLog (run env evs) = []
    \<and> onProgressLog (run env evs) = []"
proof -
  have h: "handleExport env initial_panel = initial_panel\<lparr>toasts := [ToastError ''No clips to export'']\<rparr>"
    using assms by (simp add: handleExport_def hasClips_def add_toast_def initial_panel_def)
  have "run env evs = initial_panel\<lparr>toasts := [ToastError ''No clips to export'']\<rparr>"
    unfolding run_def h by (rule foldl_dead) (simp_all add: initial_panel_def)
  then show ?thesis by (simp add: initial_panel_def)
qed

theorem C4_empty_timeline_witness:
  "env_timelineBlocks (mk_env [] [clip_a] webm) = []
   \<and> recorder (run (mk_env [] [clip_a] webm) [LoadedMetadata, Seeked, PlayResolved, AnimationFrame 1 True, RecorderStop]) = NotCreated
   \<and> toasts (run (mk_env [] [clip_a] webm) [LoadedMetadata, Seeked, PlayResolved, AnimationFrame 1 True, RecorderStop])
       = [ToastError ''No clips to export'']"
proof -
  have e: "env_timelineBlocks (mk_env [] [clip_a] webm) = []" by (simp add: mk_env_def)
  from C4_empty_timeline[OF e, of "[LoadedMetadata, Seeked, PlayResolved, AnimationFrame 1 True, RecorderStop]"] e
  show ?thesis by (simp add: initial_panel_def)
qed

text \<open>
  Claim C3. In every run, whatever the number of blocks, the media-element audio source is
  created at most once; from the first played block on it exists and the count stays at
  one, so every later block reuses it.
\<close>

theorem C3_audio_source_created_once:
  "createSourceCalls (run env evs) \<le> 1
   \<and> (playLog (run env evs) \<noteq> [] \<longrightarrow> createSourceCalls (run env evs) = 1)"
proof -
  have "inv_audio (run env evs)" using run_inv_run[of env evs] by (simp add: run_inv_def)
  then show ?thesis by (simp add: inv_audio_def)
qed

theorem C3_audio_source_created_once_witness:
  "playLog (run (mk_env [mk_block ''B1'' ''a'' 0 0 1, mk_block ''B2'' ''a'' 1 2 3, mk_block ''B3'' ''a'' 2 5 6] [clip_a] webm) (schedule 3))
      = [0, 1, 2]
   \<and> createSourceCalls (run (mk_env [mk_block ''B1'' ''a'' 0 0 1, mk_block ''B2'' ''a'' 1 2 3, mk_block ''B3'' ''a'' 2 5 6] [clip_a] webm) (schedule 3)) = 1"
proof -
  have e: "playLog (run (mk_env [mk_block ''B1'' ''a'' 0 0 1, mk_block ''B2'' ''a'' 1 2 3, mk_block ''B3'' ''a'' 2 5 6] [clip_a] webm) (schedule 3))
      = [0, 1, 2]"
    by (simp add: run_eval eval_nat_numeral)
  with C3_audio_source_created_once[of "mk_env [mk_block ''B1'' ''a'' 0 0 1, mk_block ''B2'' ''a'' 1 2 3, mk_block ''B3'' ''a'' 2 5 6] [clip_a] webm" "schedule 3"]
  show ?thesis by simp
qed

text \<open>
  Claim C1 (the code does not do what the claim says). A run that is cancelled while in
  progress should not resolve with a blob and should capture no further frame. Here a
  one-block run is cancelled after its first captured frame: \<open>isExporting\<close> is cleared
  and "Export cancelled" is shown, but the recorder keeps recording, a further frame is
  captured, the promise resolves with the blob and the file is saved.
\<close>

theorem C1_cancel_does_not_stop_the_run:
  "isExporting (run (mk_env [mk_block ''B1'' ''a'' 0 0 1] [clip_a] webm)
       [LoadedMetadata, LoadedMetadata, Seeked, PlayResolved, AnimationFrame (1/2) False])
   \<and> \<not> isExporting (run (mk_env [mk_block ''B1'' ''a'' 0 0 1] [clip_a] webm)
       [LoadedMetadata, LoadedMetadata, Seeked, PlayResolved, AnimationFrame (1/2) False, CancelClick])
   \<and> recorder (run (mk_env [mk_block ''B1'' ''a'' 0 0 1] [clip_a] webm)
       [LoadedMetadata, LoadedMetadata, Seeked, PlayResolved, AnimationFrame (1/2) False, CancelClick])
       = Recording
   \<and> drawImageLog (run (mk_env [mk_block ''B1'' ''a'' 0 0 1] [clip_a] webm)
       [LoadedMetadata, LoadedMetadata, Seeked, PlayResolved, AnimationFrame (1/2) False, CancelClick])
       = [0]
   \<and> drawImageLog (run (mk_env [mk_block ''B1'' ''a'' 0 0 1] [clip_a] webm)
       [LoadedMetadata, LoadedMetadata, Seeked, PlayResolved, AnimationFrame (1/2) False, CancelClick,
        AnimationFrame (3/4) False, AnimationFrame 1 False, DataAvailable 7, RecorderStop, DownloadDone])
       = [0, 0]
   \<and> outcome (run (mk_env [mk_block ''B1'' ''a'' 0 0 1] [clip_a] webm)
       [LoadedMetadata, LoadedMetadata, Seeked, PlayResolved, AnimationFrame (1/2) False, CancelClick,
        AnimationFrame (3/4) False, AnimationFrame 1 False, DataAvailable 7, RecorderStop, DownloadDone])
       = Resolved [7]
   \<and> toasts (run (mk_env [mk_block ''B1'' ''a'' 0 0 1] [clip_a] webm)
       [LoadedMetadata, LoadedMetadata, Seeked, PlayResolved, AnimationFrame (1/2) False, CancelClick,
        AnimationFrame (3/4) False, AnimationFrame 1 False, DataAvailable 7, RecorderStop, DownloadDone])
       = [ToastPlain ''Export cancelled'', ToastSuccess ''Video exported'']"
  by (simp add: run_eval)

section \<open>Progress reported to the caller\<close>

text \<open>
  Claim C6, as stated, fails: the reported progress is not monotone. In this run to MP4 the
  raw transcode ratio falls from 0.6 to 0.2 and the reported value falls from 86 to 72.
\<close>

theorem C6_progress_regresses:
  "setExportProgressLog (run (mk_env [mk_block ''B1'' ''a'' 0 0 1] [clip_a] mp4)
       [LoadedMetadata, LoadedMetadata, Seeked, PlayResolved, AnimationFrame 1 False, RecorderStop,
        FfmpegProgress (Some (6/10)) None, FfmpegProgress (Some (2/10)) None])
     = [Num 0, Num 3, Num 57, Num 65, Num 86, Num 72]
   \<and> \<not> nondecreasing (setExportProgressLog (run (mk_env [mk_block ''B1'' ''a'' 0 0 1] [clip_a] mp4)
       [LoadedMetadata, LoadedMetadata, Seeked, PlayResolved, AnimationFrame 1 False, RecorderStop,
        FfmpegProgress (Some (6/10)) None, FfmpegProgress (Some (2/10)) None]))"
  by (simp add: run_eval ffmpeg_progress_def transcode_report_def round_half_up_def)

lemma round_half_up_mono: "x \<le> y \<Longrightarrow> round_half_up x \<le> round_half_up y"
  by (simp add: round_half_up_def floor_mono)

lemma ffmpeg_progress_range: "0 \<le> ffmpeg_progress raw time \<and> ffmpeg_progress raw time \<le> 100"
  by (simp add: ffmpeg_progress_def Let_def)

lemma transcode_report_range:
  assumes "0 \<le> p" and "p \<le> 100"
  shows "65 \<le> transcode_report p \<and> transcode_report p \<le> 100"
proof -
  have "0 \<le> p * 0.35 + 1 / 2" using assms by simp
  then have l: "0 \<le> \<lfloor>p * 0.35 + 1 / 2\<rfloor>" by simp
  have "p * 0.35 + 1 / 2 < 36" using assms by simp
  then have "\<lfloor>p * 0.35 + 1 / 2\<rfloor> < 36" by (simp add: floor_less_iff)
  then have u: "\<lfloor>p * 0.35 + 1 / 2\<rfloor> \<le> 35" by simp
  from l u show ?thesis by (simp add: transcode_report_def round_half_up_def)
qed

lemma ffmpeg_progress_in_range:
  "0 \<le> r \<Longrightarrow> r \<le> 1 \<Longrightarrow> ffmpeg_progress (Some r) t = round_half_up (r * 100)"
proof -
  assume a: "0 \<le> r" "r \<le> 1"
  then have "0 \<le> r * 100 + 1 / 2" by simp
  then have l: "0 \<le> \<lfloor>r * 100 + 1 / 2\<rfloor>" by simp
  have "r * 100 + 1 / 2 < 101" using a by simp
  then have "\<lfloor>r * 100 + 1 / 2\<rfloor> < 101" by (simp add: floor_less_iff)
  then have u: "\<lfloor>r * 100 + 1 / 2\<rfloor> \<le> 100" by simp
  from a l u show ?thesis by (simp add: ffmpeg_progress_def Let_def round_half_up_def)
qed

text \<open>
  Claim C6, amended. Every raw transcode sample, whatever its ratio and time, is forwarded
  as a value in [0,100] and reported as \<open>65 + round(0.35 p)\<close> in [65,100]; two samples whose
  ratios are in [0,1] and do not fall are reported by values that do not fall. No running
  maximum is kept.
\<close>

theorem C6_progress_clamped:
  "0 \<le> ffmpeg_progress raw time \<and> ffmpeg_progress raw time \<le> 100
   \<and> 65 \<le> transcode_report (ffmpeg_progress raw time)
   \<and> transcode_report (ffmpeg_progress raw time) \<le> 100
   \<and> (phase s = Transcoding \<longrightarrow>
        exportProgress (step env s (FfmpegProgress raw time))
          = Num (transcode_report (ffmpeg_progress raw time)))
   \<and> (0 \<le> r1 \<and> r1 \<le> r2 \<and> r2 \<le> 1 \<longrightarrow>
        transcode_report (ffmpeg_progress (Some r1) t1)
          \<le> transcode_report (ffmpeg_progress (Some r2) t2))"
proof -
  have m: "transcode_report (ffmpeg_progress (Some r1) t1) \<le> transcode_report (ffmpeg_progress (Some r2) t2)"
    if "0 \<le> r1" "r1 \<le> r2" "r2 \<le> 1"
  proof -
    from that have "0 \<le> r2" "r1 \<le> 1" by simp_all
    with that have e: "ffmpeg_progress (Some r1) t1 = round_half_up (r1 * 100)"
      "ffmpeg_progress (Some r2) t2 = round_half_up (r2 * 100)"
      by (simp_all add: ffmpeg_progress_in_range)
    have "round_half_up (r1 * 100) \<le> round_half_up (r2 * 100)"
      using that by (intro round_half_up_mono) simp
    then have "round_half_up (r1 * 100) * 0.35 \<le> round_half_up (r2 * 100) * 0.35" by simp
    then show ?thesis unfolding e transcode_report_def
      by (intro add_left_mono round_half_up_mono)
  qed
  show ?thesis
    using ffmpeg_progress_range[of raw time]
      transcode_report_range[of "ffmpeg_progress raw time"] m
    by simp
qed

theorem C6_progress_clamped_witness:
  "phase (run (mk_env [mk_block ''B1'' ''a'' 0 0 1] [clip_a] mp4)
       [LoadedMetadata, LoadedMetadata, Seeked, PlayResolved, AnimationFrame 1 False, RecorderStop]) = Transcoding
   \<and> exportProgress (step (mk_env [mk_block ''B1'' ''a'' 0 0 1] [clip_a] mp4)
        (run (mk_env [mk_block ''B1'' ''a'' 0 0 1] [clip_a] mp4)
          [LoadedMetadata, LoadedMetadata, Seeked, PlayResolved, AnimationFrame 1 False, RecorderStop])
        (FfmpegProgress (Some (-3)) (Some (-5)))) = Num 65
   \<and> (0::real) \<le> 3/10 \<and> (3/10::real) \<le> 1/2 \<and> (1/2::real) \<le> 1
   \<and> transcode_report (ffmpeg_progress (Some (3/10)) None) \<le> transcode_report (ffmpeg_progress (Some (1/2)) None)"
proof -
  have p: "phase (run (mk_env [mk_block ''B1'' ''a'' 0 0 1] [clip_a] mp4)
       [LoadedMetadata, LoadedMetadata, Seeked, PlayResolved, AnimationFrame 1 False, RecorderStop]) = Transcoding"
    by (simp add: run_eval)
  have v: "transcode_report (ffmpeg_progress (Some (-3)) (Some (-5))) = 65"
    by (simp add: ffmpeg_progress_def transcode_report_def round_half_up_def)
  from C6_progress_clamped[of "Some (-3)" "Some (-5)"
      "run (mk_env [mk_block ''B1'' ''a'' 0 0 1] [clip_a] mp4)
         [LoadedMetadata, LoadedMetadata, Seeked, PlayResolved, AnimationFrame 1 False, RecorderStop]"
      "mk_env [mk_block ''B1'' ''a'' 0 0 1] [clip_a] mp4" "3/10" "1/2" None None] p v
  show ?thesis by simp
qed

section \<open>Boundary detection\<close>

text \<open>
  Claim C2, as stated, fails. In the export's capture loop a frame at 4.97 s of a block that
  ends at 5 s is within the tolerance 0.05 of the end, yet the video is not paused, the
  block is not left and the frame is drawn. In the preview player a tick taken while a
  transition is in progress changes nothing.
\<close>

theorem C2_capture_loop_has_no_tolerance:
  "(497 / 100 :: real) \<ge> TimelineBlock.endTime (blocks (mk_env [mk_block ''B1'' ''a'' 0 0 5] [clip_a] webm) ! 0) - 0.05
   \<and> phase (run (mk_env [mk_block ''B1'' ''a'' 0 0 5] [clip_a] webm)
        [LoadedMetadata, LoadedMetadata, Seeked, PlayResolved]) = Capturing
   \<and> currentBlockIndex (run (mk_env [mk_block ''B1'' ''a'' 0 0 5] [clip_a] webm)
        [LoadedMetadata, LoadedMetadata, Seeked, PlayResolved]) = 0
   \<and> phase (run (mk_env [mk_block ''B1'' ''a'' 0 0 5] [clip_a] webm)
        [LoadedMetadata, LoadedMetadata, Seeked, PlayResolved, AnimationFrame (497 / 100) False]) = Capturing
   \<and> \<not> videoPaused (run (mk_env [mk_block ''B1'' ''a'' 0 0 5] [clip_a] webm)
        [LoadedMetadata, LoadedMetadata, Seeked, PlayResolved, AnimationFrame (497 / 100) False])
   \<and> currentBlockIndex (run (mk_env [mk_block ''B1'' ''a'' 0 0 5] [clip_a] webm)
        [LoadedMetadata, LoadedMetadata, Seeked, PlayResolved, AnimationFrame (497 / 100) False]) = 0
   \<and> drawImageLog (run (mk_env [mk_block ''B1'' ''a'' 0 0 5] [clip_a] webm)
        [LoadedMetadata, LoadedMetadata, Seeked, PlayResolved, AnimationFrame (497 / 100) False]) = [0]
   \<and> handleTimeUpdate ((player_at [mk_block ''B1'' ''a'' 0 0 5] 0 (497 / 100))\<lparr>isTransitioning := True\<rparr>)
       = (player_at [mk_block ''B1'' ''a'' 0 0 5] 0 (497 / 100))\<lparr>isTransitioning := True\<rparr>"
  by (simp add: run_eval handleTimeUpdate_def player_at_def)

lemma processNextBlock_after:
  "currentBlockIndex s \<le> currentBlockIndex (processNextBlock env s)
   \<and> phase (processNextBlock env s) \<noteq> Capturing
   \<and> videoPaused (processNextBlock env s) = videoPaused s
   \<and> drawImageLog (processNextBlock env s) = drawImageLog s"
  using processNextBlock_shape[of s env] by auto

text \<open>
  Claim C2, amended. In the preview player, on a time-update tick taken while the video
  element exists, no transition is in progress and the current index is in range, a
  current time of at least \<open>endTime - 0.05\<close> pauses the video at once, clears
  \<open>isPlaying\<close> and moves to the next block (to the first one after the last). In a run of
  the export, on every animation frame of the capture loop, the block ends exactly when
  the current time is at least \<open>endTime\<close> or the video has ended: then the video is
  paused, no frame is drawn and the block index moves on; otherwise the frame is drawn
  and nothing else changes.
\<close>

theorem C2_boundary_detection:
  "(videoRef p = Some v \<and> \<not> isTransitioning p
      \<and> VideoPlayer.currentBlockIndex p < length (sortedBlocks (timelineBlocks (store p)))
      \<and> v_currentTime v \<ge> TimelineBlock.endTime
            (sortedBlocks (timelineBlocks (store p)) ! VideoPlayer.currentBlockIndex p) - 0.05
    \<longrightarrow> videoRef (handleTimeUpdate p) = Some (v\<lparr>v_paused := True\<rparr>)
        \<and> \<not> isPlaying (playback (store (handleTimeUpdate p)))
        \<and> isTransitioning (handleTimeUpdate p)
        \<and> VideoPlayer.currentBlockIndex (handleTimeUpdate p)
            = (if VideoPlayer.currentBlockIndex p + 1 < length (sortedBlocks (timelineBlocks (store p)))
               then VideoPlayer.currentBlockIndex p + 1 else 0))
   \<and> (phase (run env evs) = Capturing
    \<longrightarrow> currentBlockIndex (run env evs) < length (blocks env)
        \<and> (if t \<ge> TimelineBlock.endTime (blocks env ! currentBlockIndex (run env evs)) \<or> ended
            then videoPaused (step env (run env evs) (AnimationFrame t ended))
               \<and> currentBlockIndex (step env (run env evs) (AnimationFrame t ended))
                    > currentBlockIndex (run env evs)
               \<and> phase (step env (run env evs) (AnimationFrame t ended)) \<noteq> Capturing
               \<and> drawImageLog (step env (run env evs) (AnimationFrame t ended))
                    = drawImageLog (run env evs)
            else step env (run env evs) (AnimationFrame t ended)
                   = (run env evs)\<lparr>drawImageLog := drawImageLog (run env evs)
                                        @ [currentBlockIndex (run env evs)]\<rparr>))"
proof -
  have A: "videoRef (handleTimeUpdate p) = Some (v\<lparr>v_paused := True\<rparr>)
        \<and> \<not> isPlaying (playback (store (handleTimeUpdate p)))
        \<and> isTransitioning (handleTimeUpdate p)
        \<and> VideoPlayer.currentBlockIndex (handleTimeUpdate p)
            = (if VideoPlayer.currentBlockIndex p + 1 < length (sortedBlocks (timelineBlocks (store p)))
               then VideoPlayer.currentBlockIndex p + 1 else 0)"
    if "videoRef p = Some v" "\<not> isTransitioning p"
      "VideoPlayer.currentBlockIndex p < length (sortedBlocks (timelineBlocks (store p)))"
      "v_currentTime v \<ge> TimelineBlock.endTime
            (sortedBlocks (timelineBlocks (store p)) ! VideoPlayer.currentBlockIndex p) - 0.05"
  proof -
    from that(3) have ne: "sortedBlocks (timelineBlocks (store p)) \<noteq> []" by auto
    show ?thesis
      using that ne by (simp add: handleTimeUpdate_def Let_def setPlaying_def setCurrentTime_def)
  qed
  have B: "currentBlockIndex (run env evs) < length (blocks env)
        \<and> (if t \<ge> TimelineBlock.endTime (blocks env ! currentBlockIndex (run env evs)) \<or> ended
            then videoPaused (step env (run env evs) (AnimationFrame t ended))
               \<and> currentBlockIndex (step env (run env evs) (AnimationFrame t ended))
                    > currentBlockIndex (run env evs)
               \<and> phase (step env (run env evs) (AnimationFrame t ended)) \<noteq> Capturing
               \<and> drawImageLog (step env (run env evs) (AnimationFrame t ended))
                    = drawImageLog (run env evs)
            else step env (run env evs) (AnimationFrame t ended)
                   = (run env evs)\<lparr>drawImageLog := drawImageLog (run env evs)
                                        @ [currentBlockIndex (run env evs)]\<rparr>)"
    if c: "phase (run env evs) = Capturing"
  proof -
    let ?s = "run env evs"
    have "inv_idx env ?s" using run_inv_run[of env evs] by (simp add: run_inv_def)
    with c have i: "currentBlockIndex ?s < length (blocks env)" by (simp add: inv_idx_def active_def)
    show ?thesis
    proof (cases "t \<ge> TimelineBlock.endTime (blocks env ! currentBlockIndex ?s) \<or> ended")
      case True
      let ?s3 = "(onProgress env (capture_progress (processedDuration ?s + segmentDuration env (currentBlockIndex ?s)) (run_totalDuration env))
          (?s\<lparr>videoPaused := True, processedDuration := processedDuration ?s + segmentDuration env (currentBlockIndex ?s)\<rparr>))
         \<lparr>currentBlockIndex := Suc (currentBlockIndex ?s)\<rparr>"
      have e: "step env ?s (AnimationFrame t ended) = processNextBlock env ?s3"
        using c captureLoop_boundary[OF True] by simp
      from processNextBlock_after[of ?s3 env] True i show ?thesis
        unfolding e by simp
    next
      case False
      with c i captureLoop_draw[OF False] show ?thesis by simp
    qed
  qed
  from A B show ?thesis by blast
qed

theorem C2_boundary_detection_witness:
  "videoRef (player_at [mk_block ''B1'' ''a'' 0 0 5] 0 (497 / 100)) = Some \<lparr>v_currentTime = 497 / 100, v_paused = False\<rparr>
   \<and> \<not> isTransitioning (player_at [mk_block ''B1'' ''a'' 0 0 5] 0 (497 / 100))
   \<and> VideoPlayer.currentBlockIndex (player_at [mk_block ''B1'' ''a'' 0 0 5] 0 (497 / 100))
        < length (sortedBlocks (timelineBlocks (store (player_at [mk_block ''B1'' ''a'' 0 0 5] 0 (497 / 100)))))
   \<and> videoRef (handleTimeUpdate (player_at [mk_block ''B1'' ''a'' 0 0 5] 0 (497 / 100)))
        = Some \<lparr>v_currentTime = 497 / 100, v_paused = True\<rparr>
   \<and> isTransitioning (handleTimeUpdate (player_at [mk_block ''B1'' ''a'' 0 0 5] 0 (497 / 100)))
   \<and> phase (run (mk_env [mk_block ''B1'' ''a'' 0 0 5] [clip_a] webm)
        [LoadedMetadata, LoadedMetadata, Seeked, PlayResolved]) = Capturing
   \<and> videoPaused (step (mk_env [mk_block ''B1'' ''a'' 0 0 5] [clip_a] webm)
        (run (mk_env [mk_block ''B1'' ''a'' 0 0 5] [clip_a] webm)
          [LoadedMetadata, LoadedMetadata, Seeked, PlayResolved]) (AnimationFrame 5 False))
   \<and> phase (step (mk_env [mk_block ''B1'' ''a'' 0 0 5] [clip_a] webm)
        (run (mk_env [mk_block ''B1'' ''a'' 0 0 5] [clip_a] webm)
          [LoadedMetadata, LoadedMetadata, Seeked, PlayResolved]) (AnimationFrame 5 False)) \<noteq> Capturing"
proof -
  let ?p = "player_at [mk_block ''B1'' ''a'' 0 0 5] 0 (497 / 100)"
  let ?env = "mk_env [mk_block ''B1'' ''a'' 0 0 5] [clip_a] webm"
  let ?evs = "[LoadedMetadata, LoadedMetadata, Seeked, PlayResolved]"
  have sb: "sortedBlocks (timelineBlocks (store ?p)) = [mk_block ''B1'' ''a'' 0 0 5]"
    by (simp add: player_at_def sortedBlocks_def updateBlockOrder_def Let_def)
  have h: "videoRef ?p = Some \<lparr>v_currentTime = 497 / 100, v_paused = False\<rparr>"
    "\<not> isTransitioning ?p"
    "VideoPlayer.currentBlockIndex ?p < length (sortedBlocks (timelineBlocks (store ?p)))"
    "v_currentTime \<lparr>v_currentTime = 497 / 100, v_paused = False\<rparr> \<ge> TimelineBlock.endTime
            (sortedBlocks (timelineBlocks (store ?p)) ! VideoPlayer.currentBlockIndex ?p) - 0.05"
    unfolding sb by (simp_all add: player_at_def mk_block_def)
  have c: "phase (run ?env ?evs) = Capturing" by (simp add: run_eval)
  have b: "blocks ?env = [mk_block ''B1'' ''a'' 0 0 5]"
    by (simp add: blocks_def sortedBlocks_def mk_env_def)
  have i: "currentBlockIndex (run ?env ?evs) = 0" by (simp add: run_eval)
  have t: "(5::real) \<ge> TimelineBlock.endTime (blocks ?env ! currentBlockIndex (run ?env ?evs)) \<or> False"
    unfolding b i by (simp add: mk_block_def)
  from C2_boundary_detection[of ?p "\<lparr>v_currentTime = 497 / 100, v_paused = False\<rparr>" ?env ?evs 5 False]
    h c t
  show ?thesis by simp
qed

section \<open>Trim times\<close>

text \<open>
  The in-point key and the two trim handles keep a block within its source: the in-point
  key when the playhead time is not negative, the end handle when the source is at least
  0.1 longer than \<open>startTime\<close>; for the handles, at every mouse move whose clamped time
  is a number, an element of zero width included.
\<close>

lemma setInPoint_block_ok:
  assumes "trim_ok b c" and "0 \<le> t" and "TimelineBlock.endTime b - t > 0.1"
  shows "trim_ok (spread b (no_updates\<lparr>u_startTime := Some t,
                                      u_duration := Some (TimelineBlock.endTime b - t)\<rparr>)) c"
  using assms by (simp add: trim_ok_def spread_def no_updates_def)

lemma trim_start_drag_ok:
  assumes "trim_ok b c" and "trimming tc = Some TrimStart" and "temp_end tc = TimelineBlock.endTime b"
    and "handleMouseMove x w b c tc = Some tc'"
  shows "0 \<le> temp_start tc' \<and> temp_start tc' < temp_end tc'
     \<and> temp_end tc' \<le> VideoMetadata.duration (metadata c)"
proof -
  let ?n = "js_add (TimelineBlock.startTime b)
              (js_mult (js_div x w) (TimelineBlock.endTime b - TimelineBlock.startTime b))"
  from assms(2,4) obtain v where v: "js_max 0 (js_min (temp_end tc - 0.1) ?n) = Num v"
    and t: "tc' = tc\<lparr>temp_start := v\<rparr>"
    by (auto simp add: handleMouseMove_def Let_def split: jsnum.splits)
  from assms(1,3) have e: "0 < temp_end tc" "temp_end tc \<le> VideoMetadata.duration (metadata c)"
    by (simp_all add: trim_ok_def)
  from v e(1) have "0 \<le> v \<and> v < temp_end tc" by (cases ?n) auto
  with t e(2) show ?thesis by simp
qed

lemma trim_end_drag_ok:
  assumes "trim_ok b c" and "trimming tc = Some TrimEnd" and "temp_start tc = TimelineBlock.startTime b"
    and "TimelineBlock.startTime b + 0.1 \<le> VideoMetadata.duration (metadata c)"
    and "handleMouseMove x w b c tc = Some tc'"
  shows "0 \<le> temp_start tc' \<and> temp_start tc' < temp_end tc'
     \<and> temp_end tc' \<le> VideoMetadata.duration (metadata c)"
proof -
  let ?n = "js_add (TimelineBlock.startTime b)
              (js_mult (js_div x w) (TimelineBlock.endTime b - TimelineBlock.startTime b))"
  from assms(2,5) obtain v
    where v: "js_max (temp_start tc + 0.1) (js_min (VideoMetadata.duration (metadata c)) ?n) = Num v"
    and t: "tc' = tc\<lparr>temp_end := v\<rparr>"
    by (auto simp add: handleMouseMove_def Let_def split: jsnum.splits)
  from assms(1,3,4) have e: "0 \<le> temp_start tc"
    "temp_start tc + 0.1 \<le> VideoMetadata.duration (metadata c)"
    by (simp_all add: trim_ok_def)
  from v e(2) have "temp_start tc < v \<and> v \<le> VideoMetadata.duration (metadata c)"
    by (cases ?n) auto
  with t e(1) show ?thesis by simp
qed

text \<open>
  Claim C7 (the code does not do what the claim says). The out-point key sets \<open>endTime\<close>
  to the playhead's timeline time when that is more than 0.1 after \<open>startTime\<close>, with
  no comparison against the clip's duration. In \<open>store7\<close> the second block satisfies
  \<open>0 \<le> startTime < endTime \<le> sourceDuration\<close> with a source of 10 seconds; after the key
  its \<open>endTime\<close> is 20.
\<close>

theorem C7_out_point_exceeds_source:
  "timelineBlocks store7 = [mk_block ''A'' ''a'' 0 0 20, mk_block ''B'' ''b'' 1 0 10]
   \<and> trim_ok (mk_block ''B'' ''b'' 1 0 10) (clips store7 ! 1)
   \<and> VideoMetadata.duration (metadata (clips store7 ! 1)) = 10
   \<and> id_clip (clips store7 ! 1) = ''b''
   \<and> timelineBlocks (handleKeyPress False KeyO store7)
        = [mk_block ''A'' ''a'' 0 0 20, (mk_block ''B'' ''b'' 1 0 10)\<lparr>endTime := 20, duration := 20\<rparr>]
   \<and> \<not> trim_ok ((mk_block ''B'' ''b'' 1 0 10)\<lparr>endTime := 20, duration := 20\<rparr>) (clips (handleKeyPress False KeyO store7) ! 1)"
  by (simp add: store7_def handleKeyPress_def setOutPoint_def truthy_id_def setCurrentTime_def
      setActiveBlock_def addBlockToTimeline_def addClip_def initial_store_def updateBlock_def
      spread_def no_updates_def mk_block_def clip_a_def trim_ok_def reduce_duration_def Let_def)

section \<open>Blocks whose clip is missing\<close>

lemma total_as_sum:
  "run_totalDuration env = (\<Sum>i = 0..<length (blocks env). TimelineBlock.duration (blocks env ! i))"
proof -
  have "run_totalDuration env = sum_list (map TimelineBlock.duration (blocks env))"
    by (simp add: run_totalDuration_def reduce_duration_sum_list)
  also have "\<dots> = (\<Sum>i = 0..<length (map TimelineBlock.duration (blocks env)). map TimelineBlock.duration (blocks env) ! i)"
    by (rule sum_list_sum_nth)
  also have "\<dots> = (\<Sum>i = 0..<length (blocks env). TimelineBlock.duration (blocks env ! i))"
    by (rule sum.cong) simp_all
  finally show ?thesis .
qed

lemma processed_as_sum:
  "processed_through env k = (\<Sum>i = 0..<k. if found env i then segmentDuration env i else 0)"
proof -
  have "processed_through env k
          = sum_list (map (\<lambda>i. if found env i then segmentDuration env i else 0) [0..<k])"
    by (simp add: processed_through_def processed_indices_def sum_list_map_filter')
  also have "\<dots> = (\<Sum>i = 0..<k. if found env i then segmentDuration env i else 0)"
    by (simp add: interv_sum_list_conv_sum_set_nat)
  finally show ?thesis .
qed

lemma processed_lt_total:
  assumes c: "consistent_durations env"
    and j: "j < length (blocks env)" "\<not> found env j" "0 < TimelineBlock.duration (blocks env ! j)"
    and k: "k \<le> length (blocks env)"
  shows "processed_through env k < run_totalDuration env"
proof -
  let ?n = "length (blocks env)"
  let ?g = "\<lambda>i. if found env i then segmentDuration env i else 0"
  let ?d = "\<lambda>i. TimelineBlock.duration (blocks env ! i)"
  have d: "segmentDuration env i = ?d i \<and> 0 \<le> ?d i" if "i < ?n" for i
  proof -
    from that have "blocks env ! i \<in> set (blocks env)" by simp
    with c show ?thesis unfolding consistent_durations_def segmentDuration_def by fastforce
  qed
  have "processed_through env k = sum ?g {0..<k}" by (rule processed_as_sum)
  also have "\<dots> \<le> sum ?g {0..<?n}"
  proof (rule sum_mono2)
    show "finite {0..<?n}" by simp
    show "{0..<k} \<subseteq> {0..<?n}" using k by simp
    show "0 \<le> ?g b" if "b \<in> {0..<?n} - {0..<k}" for b using that d[of b] by simp
  qed
  also have "\<dots> < sum ?d {0..<?n}"
  proof (rule sum_strict_mono_ex1)
    show "finite {0..<?n}" by simp
    show "\<forall>i\<in>{0..<?n}. ?g i \<le> ?d i" using d by simp
    show "\<exists>a\<in>{0..<?n}. ?g a < ?d a" using j by (intro bexI[of _ j]) simp_all
  qed
  also have "\<dots> = run_totalDuration env" by (simp add: total_as_sum)
  finally show ?thesis .
qed

lemma capture_progress_below:
  assumes "p < tot" and "0 < tot"
  shows "\<exists>x. capture_progress p tot = Num x \<and> x < 95"
proof -
  from assms have "p / tot < 1" by simp
  then have "p / tot * 95 < 1 * 95" by (intro mult_strict_right_mono) simp_all
  then have "min 95 (p / tot * 95) < 95" by simp
  with assms show ?thesis unfolding capture_progress_def js_div_def by simp
qed

lemma log_below_cap:
  assumes c: "consistent_durations env"
    and j: "j < length (blocks env)" "\<not> found env j" "0 < TimelineBlock.duration (blocks env ! j)"
  shows "\<forall>p \<in> set (onProgressLog (run env evs)). \<exists>x. p = Num x \<and> x < 95"
proof -
  let ?s = "run env evs"
  have i: "inv_proc env ?s" "inv_idx env ?s" using run_inv_run[of env evs] by (simp_all add: run_inv_def)
  have tot: "0 < run_totalDuration env"
    using processed_lt_total[OF c j, of 0] by (simp add: processed_through_0)
  have "\<exists>x. p = Num x \<and> x < 95" if "p \<in> set (expected_log env (currentBlockIndex ?s))" for p
  proof -
    from that consider "p = Num 5"
      | i where "i \<in> set (processed_indices env (currentBlockIndex ?s))"
          "p = capture_progress (processed_through env (Suc i)) (run_totalDuration env)"
      by (auto simp add: expected_log_def)
    then show ?thesis
    proof cases
      case 1 then show ?thesis by simp
    next
      case 2
      from 2(1) have "i < currentBlockIndex ?s" by (simp add: processed_indices_def)
      with i(2) have "Suc i \<le> length (blocks env)" by (simp add: inv_idx_def)
      from processed_lt_total[OF c j this] tot 2(2) show ?thesis
        by (simp add: capture_progress_below)
    qed
  qed
  with i(1) show ?thesis by (auto simp add: inv_proc_def split: if_splits)
qed


lemma remaining_found:
  "k < length (blocks env) \<Longrightarrow> found env k \<Longrightarrow> remaining env k = Suc (remaining env (Suc k))"
  by (simp add: remaining_def upt_conv_Cons)

lemma remaining_skip:
  assumes "j \<le> k" and "k \<le> length (blocks env)"
    and "\<forall>i. j \<le> i \<and> i < k \<longrightarrow> i < length (blocks env) \<and> \<not> found env i"
  shows "remaining env j = remaining env k"
proof -
  have "[j..<length (blocks env)] = [j..<k] @ [k..<length (blocks env)]"
    using assms(1,2) by (metis le_Suc_ex upt_add_eq_append)
  moreover have "filter (found env) [j..<k] = []"
    using assms(3) by (auto simp add: filter_empty_conv)
  ultimately show ?thesis by (simp add: remaining_def)
qed

lemma remaining_end: "remaining env (length (blocks env)) = 0"
  by (simp add: remaining_def)

lemma foldl_step_inv: "run_inv env s \<Longrightarrow> run_inv env (foldl (step env) s evs)"
  by (induction evs arbitrary: s) (simp_all add: inv_step)

lemma play_block_once:
  assumes inv: "run_inv env s" and ph: "phase s = AwaitMetadata"
  shows "chunks (foldl (step env) s play_block) = chunks s
     \<and> ((phase (foldl (step env) s play_block) = AwaitMetadata
          \<and> 0 < remaining env (currentBlockIndex (foldl (step env) s play_block))
          \<and> Suc (remaining env (currentBlockIndex (foldl (step env) s play_block)))
              = remaining env (currentBlockIndex s))
        \<or> (phase (foldl (step env) s play_block) = Stopping
          \<and> remaining env (currentBlockIndex s) = 1))"
proof -
  from inv ph have i: "currentBlockIndex s < length (blocks env)" "found env (currentBlockIndex s)"
    by (simp_all add: run_inv_def inv_idx_def active_def)
  then obtain clip where c: "find_clip env (blocks env ! currentBlockIndex s) = Some clip"
    by (auto simp add: found_def)
  let ?s1 = "afterLoadedMetadata env s"
  have s1: "phase ?s1 = AwaitSeeked" "currentBlockIndex ?s1 = currentBlockIndex s" "chunks ?s1 = chunks s"
    using c by (simp_all add: afterLoadedMetadata_def Let_def)
  let ?s3 = "afterPlay (afterSeeked ?s1)"
  let ?s4 = "(onProgress env (capture_progress (processedDuration ?s3 + segmentDuration env (currentBlockIndex ?s3)) (run_totalDuration env))
          (?s3\<lparr>videoPaused := True, processedDuration := processedDuration ?s3 + segmentDuration env (currentBlockIndex ?s3)\<rparr>))
         \<lparr>currentBlockIndex := Suc (currentBlockIndex ?s3)\<rparr>"
  have e: "foldl (step env) s play_block = processNextBlock env ?s4"
    using ph s1 captureLoop_boundary[of env ?s3 0 True] by (simp add: play_block_def)
  have s4: "currentBlockIndex ?s4 = Suc (currentBlockIndex s)" "chunks ?s4 = chunks s"
    using s1 by simp_all
  from processNextBlock_shape[of ?s4 env] obtain k where k:
    "currentBlockIndex ?s4 \<le> k"
    "\<forall>i. currentBlockIndex ?s4 \<le> i \<and> i < k \<longrightarrow> i < length (blocks env) \<and> \<not> found env i"
    "(length (blocks env) \<le> k \<and> (currentBlockIndex ?s4 \<le> length (blocks env) \<longrightarrow> k = length (blocks env))
        \<and> processNextBlock env ?s4 = ?s4\<lparr>currentBlockIndex := k, recorder := StopRequested, phase := Stopping\<rparr>)
     \<or> (\<exists>clip. k < length (blocks env) \<and> find_clip env (blocks env ! k) = Some clip
            \<and> processNextBlock env ?s4
                = ?s4\<lparr>currentBlockIndex := k, videoSrc := Some (id_clip clip), phase := AwaitMetadata\<rparr>)"
    by blast
  have r0: "remaining env (currentBlockIndex s) = Suc (remaining env (Suc (currentBlockIndex s)))"
    using i by (rule remaining_found)
  from k(3) show ?thesis
  proof
    assume a: "length (blocks env) \<le> k \<and> (currentBlockIndex ?s4 \<le> length (blocks env) \<longrightarrow> k = length (blocks env))
        \<and> processNextBlock env ?s4 = ?s4\<lparr>currentBlockIndex := k, recorder := StopRequested, phase := Stopping\<rparr>"
    then have kl: "k = length (blocks env)" using i(1) s4(1) by simp
    have "remaining env (Suc (currentBlockIndex s)) = remaining env k"
      using k(1,2) kl s4(1) by (intro remaining_skip) simp_all
    then have "remaining env (currentBlockIndex s) = 1" using r0 kl by (simp add: remaining_end)
    moreover have "phase (foldl (step env) s play_block) = Stopping"
      "chunks (foldl (step env) s play_block) = chunks s"
      unfolding e using a s4(2) by simp_all
    ultimately show ?thesis by simp
  next
    assume "\<exists>clip. k < length (blocks env) \<and> find_clip env (blocks env ! k) = Some clip
            \<and> processNextBlock env ?s4
                = ?s4\<lparr>currentBlockIndex := k, videoSrc := Some (id_clip clip), phase := AwaitMetadata\<rparr>"
    then obtain clip' where c': "k < length (blocks env)"
      "processNextBlock env ?s4
         = ?s4\<lparr>currentBlockIndex := k, videoSrc := Some (id_clip clip'), phase := AwaitMetadata\<rparr>"
      and fk: "find_clip env (blocks env ! k) = Some clip'"
      by (elim exE conjE)
    have "remaining env (Suc (currentBlockIndex s)) = remaining env k"
      using k(1,2) c'(1) s4(1) by (intro remaining_skip) simp_all
    moreover have "0 < remaining env k"
      using remaining_found[OF c'(1)] fk by (simp add: found_def)
    moreover have "phase (foldl (step env) s play_block) = AwaitMetadata"
      "chunks (foldl (step env) s play_block) = chunks s"
      "currentBlockIndex (foldl (step env) s play_block) = k"
      unfolding e using c'(2) s4(2) by simp_all
    ultimately show ?thesis using r0 by simp
  qed
qed

lemma play_all:
  "run_inv env s \<Longrightarrow> phase s = AwaitMetadata \<Longrightarrow> remaining env (currentBlockIndex s) = Suc n
     \<Longrightarrow> phase (foldl (step env) s (concat (replicate (Suc n) play_block))) = Stopping
         \<and> chunks (foldl (step env) s (concat (replicate (Suc n) play_block))) = chunks s"
proof (induction n arbitrary: s)
  case 0
  let ?s' = "foldl (step env) s play_block"
  have inv': "run_inv env ?s'" using "0.prems"(1) by (rule foldl_step_inv)
  from play_block_once[OF "0.prems"(1,2)] "0.prems"(3)
  have "chunks ?s' = chunks s" and "phase ?s' = Stopping" by auto
  then show ?case by simp
next
  case (Suc n)
  let ?s' = "foldl (step env) s play_block"
  have inv': "run_inv env ?s'" using Suc.prems(1) by (rule foldl_step_inv)
  from play_block_once[OF Suc.prems(1,2)] Suc.prems(3)
  have c: "chunks ?s' = chunks s" and p: "phase ?s' = AwaitMetadata"
    and r: "remaining env (currentBlockIndex ?s') = Suc n" by auto
  from Suc.IH[OF inv' p r] c show ?case by simp
qed

lemma run_completes:
  assumes "hasClips env" and "\<not> (fsAccessSupported env \<and> saveHandle env \<noteq> SaveGranted)"
    and "canvasContext env" and "found env 0"
  shows "outcome (run env (schedule (length (processed_indices env (length (blocks env)))))) = Resolved []"
proof -
  let ?n = "length (processed_indices env (length (blocks env)))"
  let ?s0 = "handleExport env initial_panel"
  have "length (blocks env) = length (env_timelineBlocks env)"
    by (simp add: blocks_def sortedBlocks_def)
  with assms(1) have ne: "blocks env \<noteq> []"
    by (auto simp add: hasClips_def)
  then obtain b bs where bl: "blocks env = b # bs" by (cases "blocks env") auto
  with assms(4) obtain clip where fc: "find_clip env b = Some clip" by (auto simp add: found_def)
  have sv: "saveHandle env \<noteq> SaveCancelled \<or> \<not> fsAccessSupported env"
    "saveHandle env \<noteq> SaveFailed \<or> \<not> fsAccessSupported env"
    using assms(2) by auto
  have p0: "phase ?s0 = AwaitFirstMetadata"
    using assms(1,3) sv bl fc by (auto simp add: handleExport_def processAndMergeSegments_def Let_def)
  have inv0: "run_inv env ?s0" by (rule inv_init)
  let ?s1 = "step env ?s0 LoadedMetadata"
  let ?t = "onProgress env (Num 5) (?s0\<lparr>audioSource := False, chunks := [], recorder := Recording,
                  processedDuration := 0, currentBlockIndex := 0\<rparr>)"
  have e1: "?s1 = processNextBlock env ?t"
    using p0 by (simp add: afterFirstMetadata_def Let_def)
  have "processNextBlock env ?t = ?t\<lparr>videoSrc := Some (id_clip clip), phase := AwaitMetadata\<rparr>"
    using bl fc by (subst processNextBlock.simps) simp
  with e1 have s1: "phase ?s1 = AwaitMetadata" "currentBlockIndex ?s1 = 0" "chunks ?s1 = []"
    by simp_all
  have inv1: "run_inv env ?s1" using inv0 by (rule inv_step)
  have n: "remaining env 0 = ?n" by (simp add: remaining_def processed_indices_def)
  have r: "remaining env 0 = Suc (remaining env (Suc 0))"
    using ne assms(4) by (intro remaining_found) simp_all
  define m where "m = remaining env (Suc 0)"
  have m: "?n = Suc m" "remaining env (currentBlockIndex ?s1) = Suc m"
    unfolding s1(2) m_def using n r by (simp_all only:)
  let ?s2 = "foldl (step env) ?s1 (concat (replicate (Suc m) play_block))"
  from play_all[OF inv1 s1(1) m(2)] s1(3) have s2: "phase ?s2 = Stopping" "chunks ?s2 = []" by simp_all
  have "run_inv env ?s2" using inv1 by (rule foldl_step_inv)
  with s2(1) have "recorder ?s2 = StopRequested"
    by (auto simp add: run_inv_def inv_rec_def active_def split: recorder_state.splits)
  then have "outcome (step env ?s2 RecorderStop) = Resolved []" using s2(2) by simp
  moreover have "run env (schedule ?n) = step env ?s2 RecorderStop"
    unfolding m(1) by (simp add: run_def schedule_def)
  ultimately show ?thesis by simp
qed

lemma processed_indices_0: "processed_indices env 0 = []"
  by (simp add: processed_indices_def)

lemma handleExport_outcome:
  "outcome (handleExport env initial_panel) = Pending
   \<or> (\<exists>m. outcome (handleExport env initial_panel) = Rejected m)"
  unfolding handleExport_def processAndMergeSegments_def Let_def
  by (simp add: initial_panel_fields split: list.split option.split)

lemma play_init: "play_inv env (handleExport env initial_panel)"
  using handleExport_closure[of env initial_panel] handleExport_outcome[of env]
  by (auto simp add: play_inv_def initial_panel_fields processed_indices_0)

lemma play_processNextBlock:
  assumes "currentBlockIndex s \<le> length (blocks env)"
    and "recorder s = Recording"
    and "playLog s = processed_indices env (currentBlockIndex s)"
    and "\<not> is_resolved (outcome s)"
  shows "play_inv env (processNextBlock env s)"
proof -
  from processNextBlock_shape[of s env] obtain k where k:
    "currentBlockIndex s \<le> k"
    "\<forall>i. currentBlockIndex s \<le> i \<and> i < k \<longrightarrow> i < length (blocks env) \<and> \<not> found env i"
    "(length (blocks env) \<le> k \<and> (currentBlockIndex s \<le> length (blocks env) \<longrightarrow> k = length (blocks env))
        \<and> processNextBlock env s = s\<lparr>currentBlockIndex := k, recorder := StopRequested, phase := Stopping\<rparr>)
     \<or> (\<exists>clip. k < length (blocks env) \<and> find_clip env (blocks env ! k) = Some clip
            \<and> processNextBlock env s
                = s\<lparr>currentBlockIndex := k, videoSrc := Some (id_clip clip), phase := AwaitMetadata\<rparr>)"
    by blast
  have pi: "processed_indices env k = processed_indices env (currentBlockIndex s)"
    using processed_indices_skip[OF k(1) k(2)] .
  from k(3) show ?thesis
  proof
    assume a: "length (blocks env) \<le> k \<and> (currentBlockIndex s \<le> length (blocks env) \<longrightarrow> k = length (blocks env))
        \<and> processNextBlock env s = s\<lparr>currentBlockIndex := k, recorder := StopRequested, phase := Stopping\<rparr>"
    then have "k = length (blocks env)" using assms(1) by simp
    with a assms pi show ?thesis by (simp add: play_inv_def)
  next
    assume "\<exists>clip. k < length (blocks env) \<and> find_clip env (blocks env ! k) = Some clip
            \<and> processNextBlock env s
                = s\<lparr>currentBlockIndex := k, videoSrc := Some (id_clip clip), phase := AwaitMetadata\<rparr>"
    then obtain clip where c: "k < length (blocks env)" "find_clip env (blocks env ! k) = Some clip"
      "processNextBlock env s = s\<lparr>currentBlockIndex := k, videoSrc := Some (id_clip clip), phase := AwaitMetadata\<rparr>"
      by blast
    with assms pi show ?thesis by (simp add: play_inv_def)
  qed
qed

lemma not_resolved:
  "play_inv env s \<Longrightarrow> recorder s \<noteq> Stopped \<Longrightarrow> \<not> is_resolved (outcome s)"
  by (auto simp add: play_inv_def)

lemma play_afterFirstMetadata:
  assumes "run_inv env s" and "play_inv env s" and "phase s = AwaitFirstMetadata"
  shows "play_inv env (afterFirstMetadata env s)"
proof -
  from assms(1,3) have r: "recorder s = NotCreated"
    by (auto simp add: run_inv_def inv_rec_def active_def split: recorder_state.splits)
  with assms(1) have n: "playLog s = []" by (simp add: run_inv_def inv_fresh_def)
  from not_resolved[OF assms(2)] r have o: "\<not> is_resolved (outcome s)" by simp
  show ?thesis
    unfolding afterFirstMetadata_def Let_def
    by (rule play_processNextBlock) (simp_all add: n o processed_indices_0)
qed

lemma play_afterLoadedMetadata:
  assumes "run_inv env s" and "play_inv env s" and "phase s = AwaitMetadata"
  shows "play_inv env (afterLoadedMetadata env s)"
proof -
  from assms(1,3) have "found env (currentBlockIndex s)"
    by (simp add: run_inv_def inv_idx_def active_def)
  then obtain clip where c: "find_clip env (blocks env ! currentBlockIndex s) = Some clip"
    by (auto simp add: found_def)
  from assms(1,3) have r: "recorder s = Recording"
    by (auto simp add: run_inv_def inv_rec_def active_def split: recorder_state.splits)
  show ?thesis using assms(2,3) c r
    by (simp add: afterLoadedMetadata_def Let_def play_inv_def)
qed

lemma play_captureLoop:
  assumes "run_inv env s" and "play_inv env s" and "phase s = Capturing"
  shows "play_inv env (captureLoop env t ended s)"
proof -
  from assms(1,3) have r: "recorder s = Recording"
    by (auto simp add: run_inv_def inv_rec_def active_def split: recorder_state.splits)
  from assms(1,3) have b: "currentBlockIndex s < length (blocks env)" "found env (currentBlockIndex s)"
    by (simp_all add: run_inv_def inv_idx_def active_def)
  from assms(2,3) have p: "playLog s = processed_indices env (currentBlockIndex s) @ [currentBlockIndex s]"
    by (simp add: play_inv_def)
  from not_resolved[OF assms(2)] r have o: "\<not> is_resolved (outcome s)" by simp
  show ?thesis
  proof (cases "t \<ge> TimelineBlock.endTime (blocks env ! currentBlockIndex s) \<or> ended")
    case True
    show ?thesis
      unfolding captureLoop_boundary[OF True]
      by (rule play_processNextBlock) (use b r p o in \<open>simp_all add: processed_indices_Suc\<close>)
  next
    case False
    show ?thesis
      unfolding captureLoop_draw[OF False]
      using assms(2,3) by (simp add: play_inv_def)
  qed
qed

lemma simple_play:
  "simple_event ev \<Longrightarrow> inv_rec s \<Longrightarrow> play_inv env s \<Longrightarrow> play_inv env (step env s ev)"
  by (cases ev) (auto simp add: simple_event_def play_inv_def inv_rec_def active_def)

lemma play_step: "run_inv env s \<Longrightarrow> play_inv env s \<Longrightarrow> play_inv env (step env s ev)"
proof (cases "simple_event ev")
  case True
  assume "run_inv env s" "play_inv env s"
  with True show ?thesis by (simp add: run_inv_def simple_play)
next
  case False
  assume i: "run_inv env s" "play_inv env s"
  from False consider "ev = LoadedMetadata" | t e where "ev = AnimationFrame t e"
    by (auto simp add: simple_event_def)
  then show ?thesis
  proof cases
    case 1
    with i show ?thesis by (simp add: play_afterFirstMetadata play_afterLoadedMetadata)
  next
    case 2
    with i show ?thesis by (simp add: play_captureLoop)
  qed
qed

lemma play_inv_run: "play_inv env (run env evs)"
proof (induction evs rule: rev_induct)
  case Nil
  show ?case by (simp add: run_Nil play_init)
next
  case (snoc e evs)
  with run_inv_run[of env evs] show ?case by (simp add: run_snoc play_step)
qed

lemma processNextBlock_toasts: "toasts (processNextBlock env s) = toasts s"
  using processNextBlock_shape[of s env] by auto

lemma quiet_step: "quiet ev \<Longrightarrow> toasts (step env s ev) = toasts s"
proof (cases ev)
  case LoadedMetadata
  then show ?thesis
    by (simp add: afterFirstMetadata_def afterLoadedMetadata_def Let_def processNextBlock_toasts
        split: option.split)
next
  case (AnimationFrame t e)
  show ?thesis
  proof (cases "t \<ge> TimelineBlock.endTime (blocks env ! currentBlockIndex s) \<or> e")
    case True
    show ?thesis
      unfolding AnimationFrame step.simps captureLoop_boundary[OF True]
      by (simp add: processNextBlock_toasts)
  next
    case False
    show ?thesis
      unfolding AnimationFrame step.simps captureLoop_draw[OF False]
      by simp
  qed
qed auto

lemma quiet_foldl: "\<forall>ev \<in> set evs. quiet ev \<Longrightarrow> toasts (foldl (step env) s evs) = toasts s"
  by (induction evs arbitrary: s) (simp_all add: quiet_step)

lemma quiet_schedule: "\<forall>ev \<in> set (schedule n). quiet ev"
  by (induction n) (auto simp add: schedule_def play_block_def)

lemma handleExport_toasts:
  assumes "hasClips env" and "\<not> (fsAccessSupported env \<and> saveHandle env \<noteq> SaveGranted)"
    and "canvasContext env" and "found env 0"
  shows "toasts (handleExport env initial_panel)
     = (if format (settings env) \<noteq> webm \<and> \<not> ffmpegLoaded env
        then [ToastPlain ''First-time setup: ~5-10 seconds (downloads ~25MB)''] else [])"
proof -
  have "length (blocks env) = length (env_timelineBlocks env)"
    by (simp add: blocks_def sortedBlocks_def)
  with assms(1) obtain b bs where bl: "blocks env = b # bs"
    by (cases "blocks env") (auto simp add: hasClips_def)
  with assms(4) obtain clip where fc: "find_clip env b = Some clip" by (auto simp add: found_def)
  have sv: "saveHandle env \<noteq> SaveCancelled \<or> \<not> fsAccessSupported env"
    "saveHandle env \<noteq> SaveFailed \<or> \<not> fsAccessSupported env"
    using assms(2) by auto
  show ?thesis
    using assms(1,3) sv bl fc
    by (auto simp add: handleExport_def processAndMergeSegments_def Let_def initial_panel_fields)
qed

text \<open>
  Claim C10, as stated, fails. When it is the first block whose clip is missing, the run is
  rejected with "First clip not found" before the recorder is created. When the skipped
  block has duration 0, the progress of the capture stage reaches 95.
\<close>

theorem C10_first_or_empty_block_missing:
  "find_clip (mk_env [mk_block ''B0'' ''zz'' 0 0 1, mk_block ''B1'' ''a'' 1 0 1] [clip_a] webm)
      (blocks (mk_env [mk_block ''B0'' ''zz'' 0 0 1, mk_block ''B1'' ''a'' 1 0 1] [clip_a] webm) ! 0) = None
   \<and> outcome (run (mk_env [mk_block ''B0'' ''zz'' 0 0 1, mk_block ''B1'' ''a'' 1 0 1] [clip_a] webm) (schedule 1))
       = Rejected ''First clip not found''
   \<and> recorder (run (mk_env [mk_block ''B0'' ''zz'' 0 0 1, mk_block ''B1'' ''a'' 1 0 1] [clip_a] webm) (schedule 1))
       = NotCreated
   \<and> toasts (run (mk_env [mk_block ''B0'' ''zz'' 0 0 1, mk_block ''B1'' ''a'' 1 0 1] [clip_a] webm) (schedule 1))
       = [ToastError ''First clip not found'']
   \<and> find_clip (mk_env [mk_block ''B0'' ''a'' 0 0 1, mk_block ''B1'' ''zz'' 1 3 3] [clip_a] webm)
      (blocks (mk_env [mk_block ''B0'' ''a'' 0 0 1, mk_block ''B1'' ''zz'' 1 3 3] [clip_a] webm) ! 1) = None
   \<and> outcome (run (mk_env [mk_block ''B0'' ''a'' 0 0 1, mk_block ''B1'' ''zz'' 1 3 3] [clip_a] webm) (schedule 1))
       = Resolved []
   \<and> onProgressLog (run (mk_env [mk_block ''B0'' ''a'' 0 0 1, mk_block ''B1'' ''zz'' 1 3 3] [clip_a] webm) (schedule 1))
       = [Num 5, Num 95]"
  by (simp add: run_eval eval_nat_numeral)

text \<open>
  Claim C10, amended. In a run whose first block has its clip, a block whose clipId matches
  no clip is skipped: it is never played and no frame of it is drawn, and no toast is shown
  for it (loading, playing, capturing and skipping show none; the console warning of the
  code is not part of the state). The blocks that have a clip, before and after the
  skipped one, are all played, in order: at every moment the played blocks are those
  below the block index that have a clip, and the run, given the events it waits for,
  goes through the whole list and resolves with a blob. The total duration used for the
  progress is the sum of the duration fields of all blocks, the skipped one included; so,
  when every block's duration field is its trimmed length and not negative, and the skipped
  block's is positive, every progress value of the capture stage is below 95.
\<close>

theorem C10_missing_clip_skipped:
  assumes "hasClips env"
    and "\<not> (fsAccessSupported env \<and> saveHandle env \<noteq> SaveGranted)"
    and "canvasContext env"
    and "found env 0"
    and "j < length (blocks env)"
    and "\<not> found env j"
    and "consistent_durations env"
    and "0 < TimelineBlock.duration (blocks env ! j)"
  shows "j \<notin> set (playLog (run env evs))
    \<and> j \<notin> set (drawImageLog (run env evs))
    \<and> run_totalDuration env = (\<Sum>i = 0..<length (blocks env). TimelineBlock.duration (blocks env ! i))
    \<and> (\<forall>p \<in> set (onProgressLog (run env evs)). \<exists>x. p = Num x \<and> x < 95)
    \<and> outcome (run env (schedule (length (processed_indices env (length (blocks env)))))) = Resolved []
    \<and> playLog (run env evs)
        = processed_indices env (currentBlockIndex (run env evs))
          @ (if phase (run env evs) = AwaitPlay \<or> phase (run env evs) = Capturing
             then [currentBlockIndex (run env evs)] else [])
    \<and> ((\<forall>ev \<in> set evs. quiet ev) \<longrightarrow>
         toasts (run env evs)
           = (if format (settings env) \<noteq> webm \<and> \<not> ffmpegLoaded env
              then [ToastPlain ''First-time setup: ~5-10 seconds (downloads ~25MB)''] else []))
    \<and> currentBlockIndex (run env (schedule (length (processed_indices env (length (blocks env))))))
        = length (blocks env)
    \<and> playLog (run env (schedule (length (processed_indices env (length (blocks env))))))
        = processed_indices env (length (blocks env))
    \<and> toasts (run env (schedule (length (processed_indices env (length (blocks env))))))
        = (if format (settings env) \<noteq> webm \<and> \<not> ffmpegLoaded env
           then [ToastPlain ''First-time setup: ~5-10 seconds (downloads ~25MB)''] else [])"
proof -
  let ?n = "length (processed_indices env (length (blocks env)))"
  let ?f = "run env (schedule ?n)"
  let ?t = "if format (settings env) \<noteq> webm \<and> \<not> ffmpegLoaded env
           then [ToastPlain ''First-time setup: ~5-10 seconds (downloads ~25MB)''] else []"
  have "inv_logs env (run env evs)" using run_inv_run[of env evs] by (simp add: run_inv_def)
  with assms(6) have a: "j \<notin> set (playLog (run env evs))" "j \<notin> set (drawImageLog (run env evs))"
    by (auto simp add: inv_logs_def)
  have b: "playLog (run env evs)
        = processed_indices env (currentBlockIndex (run env evs))
          @ (if phase (run env evs) = AwaitPlay \<or> phase (run env evs) = Capturing
             then [currentBlockIndex (run env evs)] else [])"
    using play_inv_run[of env evs] by (simp add: play_inv_def)
  have t0: "toasts (handleExport env initial_panel) = ?t"
    using assms(1-4) by (rule handleExport_toasts)
  have c: "toasts (run env evs) = ?t" if "\<forall>ev \<in> set evs. quiet ev"
    unfolding run_def using quiet_foldl[OF that] t0 by simp
  have d: "toasts ?f = ?t"
    unfolding run_def using quiet_foldl[OF quiet_schedule] t0 by simp
  have o: "outcome ?f = Resolved []" using assms(1-4) by (rule run_completes)
  have p: "play_inv env ?f" by (rule play_inv_run)
  with o have r: "recorder ?f = Stopped" by (simp add: play_inv_def)
  with p have i: "currentBlockIndex ?f = length (blocks env)" by (simp add: play_inv_def)
  have "inv_rec ?f" using run_inv_run[of env "schedule ?n"] by (simp add: run_inv_def)
  with r have "phase ?f \<noteq> AwaitPlay \<and> phase ?f \<noteq> Capturing"
    by (auto simp add: inv_rec_def)
  with p i have l: "playLog ?f = processed_indices env (length (blocks env))"
    by (simp add: play_inv_def)
  from a b c d o i l total_as_sum[of env] log_below_cap[OF assms(7,5,6,8), of evs]
  show ?thesis by blast
qed

theorem C10_missing_clip_skipped_witness:
  "hasClips (mk_env [mk_block ''B0'' ''a'' 0 0 1, mk_block ''B1'' ''zz'' 1 0 2, mk_block ''B2'' ''a'' 2 2 4] [clip_a] webm)
   \<and> found (mk_env [mk_block ''B0'' ''a'' 0 0 1, mk_block ''B1'' ''zz'' 1 0 2, mk_block ''B2'' ''a'' 2 2 4] [clip_a] webm) 0
   \<and> \<not> found (mk_env [mk_block ''B0'' ''a'' 0 0 1, mk_block ''B1'' ''zz'' 1 0 2, mk_block ''B2'' ''a'' 2 2 4] [clip_a] webm) 1
   \<and> consistent_durations (mk_env [mk_block ''B0'' ''a'' 0 0 1, mk_block ''B1'' ''zz'' 1 0 2, mk_block ''B2'' ''a'' 2 2 4] [clip_a] webm)
   \<and> playLog (run (mk_env [mk_block ''B0'' ''a'' 0 0 1, mk_block ''B1'' ''zz'' 1 0 2, mk_block ''B2'' ''a'' 2 2 4] [clip_a] webm) (schedule 2))
       = [0, 2]
   \<and> onProgressLog (run (mk_env [mk_block ''B0'' ''a'' 0 0 1, mk_block ''B1'' ''zz'' 1 0 2, mk_block ''B2'' ''a'' 2 2 4] [clip_a] webm) (schedule 2))
       = [Num 5, Num 19, Num 57]
   \<and> 1 \<notin> set (drawImageLog (run (mk_env [mk_block ''B0'' ''a'' 0 0 1, mk_block ''B1'' ''zz'' 1 0 2, mk_block ''B2'' ''a'' 2 2 4] [clip_a] webm)
        [LoadedMetadata, LoadedMetadata, Seeked, PlayResolved, AnimationFrame 0 False, AnimationFrame 1 False,
         LoadedMetadata, Seeked, PlayResolved, AnimationFrame 3 False]))
   \<and> outcome (run (mk_env [mk_block ''B0'' ''a'' 0 0 1, mk_block ''B1'' ''zz'' 1 0 2, mk_block ''B2'' ''a'' 2 2 4] [clip_a] webm) (schedule 2))
       = Resolved []
   \<and> list_all quiet (schedule 2)
   \<and> toasts (run (mk_env [mk_block ''B0'' ''a'' 0 0 1, mk_block ''B1'' ''zz'' 1 0 2, mk_block ''B2'' ''a'' 2 2 4] [clip_a] webm) (schedule 2))
       = []
   \<and> currentBlockIndex (run (mk_env [mk_block ''B0'' ''a'' 0 0 1, mk_block ''B1'' ''zz'' 1 0 2, mk_block ''B2'' ''a'' 2 2 4] [clip_a] webm) (schedule 2))
       = 3"
proof -
  let ?env = "mk_env [mk_block ''B0'' ''a'' 0 0 1, mk_block ''B1'' ''zz'' 1 0 2, mk_block ''B2'' ''a'' 2 2 4] [clip_a] webm"
  have b: "blocks ?env = [mk_block ''B0'' ''a'' 0 0 1, mk_block ''B1'' ''zz'' 1 0 2, mk_block ''B2'' ''a'' 2 2 4]"
    by (simp add: blocks_def sortedBlocks_def mk_env_def mk_block_def)
  have f: "found ?env 0" "\<not> found ?env 1" "found ?env 2"
    unfolding found_def b by (simp_all add: find_clip_def mk_env_def mk_block_def clip_a_def)
  have h: "hasClips ?env" "\<not> (fsAccessSupported ?env \<and> saveHandle ?env \<noteq> SaveGranted)" "canvasContext ?env"
    by (simp_all add: hasClips_def mk_env_def)
  have j: "1 < length (blocks ?env)" "0 < TimelineBlock.duration (blocks ?env ! 1)"
    unfolding b by (simp_all add: mk_block_def)
  have c: "consistent_durations ?env"
    unfolding consistent_durations_def b by (simp add: mk_block_def)
  have n: "length (processed_indices ?env (length (blocks ?env))) = 2"
  proof -
    have "[0..<length (blocks ?env)] = [0, 1, 2]" unfolding b by (simp add: upt_conv_Cons)
    then show ?thesis unfolding processed_indices_def using f by simp
  qed
  have p: "playLog (run ?env (schedule 2)) = [0, 2]"
    "onProgressLog (run ?env (schedule 2)) = [Num 5, Num 19, Num 57]"
    by (simp_all add: run_eval eval_nat_numeral)
  note t = C10_missing_clip_skipped[OF h f(1) j(1) f(2) c j(2)]
  have w: "format (settings ?env) = webm" by (simp add: mk_env_def)
  have l: "length (blocks ?env) = 3" unfolding b by simp
  from t[of "schedule 2"] t[of "[LoadedMetadata, LoadedMetadata, Seeked, PlayResolved, AnimationFrame 0 False, AnimationFrame 1 False,
         LoadedMetadata, Seeked, PlayResolved, AnimationFrame 3 False]"] h(1) f(1,2) c p n w l
    quiet_schedule[of 2]
  show ?thesis by (simp add: list_all_iff)
qed

end
